theory Spec2Isabelle
  imports Complex_Main "HOL-Library.Char_ord" "HOL-Library.List_Lexorder"
begin

section \<open>The property graph\<close>

text \<open>
  The graph store holds four kinds of node and four kinds of relationship. Every node
  is written by a \<^verbatim>\<open>MERGE\<close> on its \<^verbatim>\<open>id\<close> property and every relationship by a
  \<^verbatim>\<open>MERGE\<close> between two matched nodes, so a node is identified by its label and id and
  a relationship by its type and the ids of its two ends. The lists keep the order of
  creation; a pattern match reads them front to back.
\<close>

type_synonym ident = string

record graph =
  category_nodes :: "(ident \<times> string) list"
    \<comment> \<open>\<^verbatim>\<open>(:Category {id, name})\<close>\<close>
  product_nodes :: "(ident \<times> string \<times> real) list"
    \<comment> \<open>\<^verbatim>\<open>(:Product {id, name, price})\<close>\<close>
  customer_nodes :: "(ident \<times> string \<times> nat) list"
    \<comment> \<open>\<^verbatim>\<open>(:Customer {id, name, join_date})\<close>\<close>
  order_nodes :: "(ident \<times> nat) list"
    \<comment> \<open>\<^verbatim>\<open>(:Order {id, ts})\<close>\<close>
  in_category :: "(ident \<times> ident) list"
    \<comment> \<open>\<^verbatim>\<open>(:Product)-[:IN_CATEGORY]->(:Category)\<close>, as (product, category)\<close>
  placed :: "(ident \<times> ident) list"
    \<comment> \<open>\<^verbatim>\<open>(:Customer)-[:PLACED]->(:Order)\<close>, as (customer, order)\<close>
  contains :: "((ident \<times> ident) \<times> int) list"
    \<comment> \<open>\<^verbatim>\<open>(:Order)-[:CONTAINS {quantity}]->(:Product)\<close>, as ((order, product), quantity)\<close>
  interactions :: "((ident \<times> ident \<times> string) \<times> nat) list"
    \<comment> \<open>\<^verbatim>\<open>(:Customer)-[:TYPE {ts}]->(:Product)\<close>, as ((customer, product, type), ts)\<close>

definition empty_graph :: graph where
  "empty_graph = \<lparr>category_nodes = [], product_nodes = [], customer_nodes = [],
     order_nodes = [], in_category = [], placed = [], contains = [], interactions = []\<rparr>"

definition ids :: "('k \<times> 'v) list \<Rightarrow> 'k set" where
  "ids al = fst ` set al"

text \<open>
  \<^verbatim>\<open>MERGE (n:Label {id: $id}) SET n.p = $v\<close>: every node (or relationship) that has the
  key gets the new properties; when none has it, one is created.
\<close>

definition merge_set :: "'k \<Rightarrow> 'v \<Rightarrow> ('k \<times> 'v) list \<Rightarrow> ('k \<times> 'v) list" where
  "merge_set k v al =
     (if k \<in> ids al then map (\<lambda>(k', v'). if k' = k then (k', v) else (k', v')) al
      else al @ [(k, v)])"

text \<open>\<^verbatim>\<open>MERGE (a)-[:TYPE]->(b)\<close> for a relationship without properties.\<close>

definition merge_rel :: "'e \<Rightarrow> 'e list \<Rightarrow> 'e list" where
  "merge_rel e es = (if e \<in> set es then es else es @ [e])"

section \<open>The rows read from the relational source\<close>

text \<open>
  A cell of a timestamp column is a \<^verbatim>\<open>pandas.Timestamp\<close>, the missing value
  \<^verbatim>\<open>NaT\<close>, or an object of another type (\<^verbatim>\<open>None\<close>, a string) that has no
  \<^verbatim>\<open>isoformat\<close>. A cell of a date column is a date or \<^verbatim>\<open>None\<close>. Instants and
  days are numbered by naturals.
\<close>

datatype ts_cell = Timestamp nat | NaT | NotATimestamp

datatype date_cell = Date nat | NoDate

text \<open>
  The text handed to the graph store as a parameter: the ISO-8601 text of an instant or
  a day, or some other text.
\<close>

datatype param_text = Iso nat | Other string

datatype error =
    AttributeError         \<comment> \<open>Python: the cell has no \<^verbatim>\<open>isoformat\<close>\<close>
  | CypherSyntaxError      \<comment> \<open>the statement text does not parse\<close>
  | CypherArgumentError    \<comment> \<open>\<^verbatim>\<open>datetime()\<close> or \<^verbatim>\<open>date()\<close> cannot parse its text;
                                \<^verbatim>\<open>LIMIT\<close> is given a negative number\<close>

record category_row =
  cat_id :: ident
  cat_name :: string

record product_row =
  prod_id :: ident
  prod_name :: string
  prod_price :: real
  prod_category_id :: ident

record customer_row =
  cust_id :: ident
  cust_name :: string
  cust_join_date :: date_cell

record order_row =
  ord_id :: ident
  ord_customer_id :: ident
  ord_ts :: ts_cell

record order_item_row =
  item_order_id :: ident
  item_product_id :: ident
  item_quantity :: int

record event_row =
  ev_customer_id :: ident
  ev_product_id :: ident
  ev_event_type :: string
  ev_ts :: ts_cell

record source =
  categories_df :: "category_row list"
  products_df :: "product_row list"
  customers_df :: "customer_row list"
  orders_df :: "order_row list"
  order_items_df :: "order_item_row list"
  events_df :: "event_row list"

section \<open>Conversions made on a row before and inside a statement\<close>

text \<open>\<^verbatim>\<open>row['ts'].isoformat()\<close>\<close>

fun isoformat :: "ts_cell \<Rightarrow> error + param_text" where
  "isoformat (Timestamp t) = Inr (Iso t)"
| "isoformat NaT = Inr (Other ''NaT'')"
| "isoformat NotATimestamp = Inl AttributeError"

text \<open>\<^verbatim>\<open>str(row['join_date'])\<close>\<close>

fun str_date :: "date_cell \<Rightarrow> param_text" where
  "str_date (Date d) = Iso d"
| "str_date NoDate = Other ''None''"

text \<open>Cypher's \<^verbatim>\<open>datetime($ts)\<close> and \<^verbatim>\<open>date($join_date)\<close> on a text parameter.\<close>

fun datetime :: "param_text \<Rightarrow> error + nat" where
  "datetime (Iso t) = Inr t"
| "datetime (Other s) = Inl CypherArgumentError"

fun date :: "param_text \<Rightarrow> error + nat" where
  "date (Iso d) = Inr d"
| "date (Other s) = Inl CypherArgumentError"

text \<open>
  What the program takes from its platform on texts that the model does not spell out:
  \<^verbatim>\<open>str.upper()\<close> of a text with a character beyond ASCII, and how the graph store
  reads a text that stands where a relationship type is expected.
\<close>

record platform =
  str_upper :: "string \<Rightarrow> string"
    \<comment> \<open>Python's \<^verbatim>\<open>str.upper()\<close>, used for a text with a character beyond ASCII\<close>
  reads_type :: "string \<Rightarrow> string option"
    \<comment> \<open>the relationship type the store reads from a text that is not a plain name
        (blanks around a name, a name in backticks, letters beyond ASCII), \<open>None\<close>
        when the statement does not parse\<close>

text \<open>\<^verbatim>\<open>str.upper()\<close>: on an ASCII text the letters a to z become A to Z.\<close>

definition ascii :: "char \<Rightarrow> bool" where
  "ascii c = (of_char c < (128 :: nat))"

definition upper_char :: "char \<Rightarrow> char" where
  "upper_char c =
     (case map_of (zip ''abcdefghijklmnopqrstuvwxyz'' ''ABCDEFGHIJKLMNOPQRSTUVWXYZ'') c of
        Some u \<Rightarrow> u
      | None \<Rightarrow> c)"

definition upper :: "platform \<Rightarrow> string \<Rightarrow> string" where
  "upper pf s = (if list_all ascii s then map upper_char s else str_upper pf s)"

text \<open>
  The event loader writes the relationship type into the statement text
  (\<^verbatim>\<open>MERGE (c)-[r:{rel_type}]->(p)\<close>) and sends the text as it is. A plain name, a
  letter or underscore followed by letters, digits and underscores, is read as the
  relationship type of that name. How any other text is read is the store's:
  \<open>reads_type\<close>. A text that makes the statement a statement of another shape than
  the \<^verbatim>\<open>MERGE\<close> of one relationship is outside the model.
\<close>

definition name_start :: "char \<Rightarrow> bool" where
  "name_start c =
     (c \<in> set ''ABCDEFGHIJKLMNOPQRSTUVWXYZabcdefghijklmnopqrstuvwxyz_'')"

definition name_part :: "char \<Rightarrow> bool" where
  "name_part c = (name_start c \<or> c \<in> set ''0123456789'')"

fun plain_name :: "string \<Rightarrow> bool" where
  "plain_name [] = False"
| "plain_name (c # cs) = (name_start c \<and> list_all name_part cs)"

definition read_type :: "platform \<Rightarrow> string \<Rightarrow> string option" where
  "read_type pf s = (if plain_name s then Some s else reads_type pf s)"

section \<open>The loader\<close>

text \<open>One statement per row; \<open>Inl\<close> is the exception that \<^verbatim>\<open>run_cypher\<close> or the
  conversion before it raises, and then the statement has changed nothing.\<close>

definition load_category :: "graph \<Rightarrow> category_row \<Rightarrow> error + graph" where
  "load_category g row =
     Inr (g\<lparr>category_nodes := merge_set (cat_id row) (cat_name row) (category_nodes g)\<rparr>)"

definition load_product :: "graph \<Rightarrow> product_row \<Rightarrow> error + graph" where
  "load_product g row =
     (let g1 = g\<lparr>product_nodes :=
                  merge_set (prod_id row) (prod_name row, prod_price row) (product_nodes g)\<rparr>
      in if prod_category_id row \<in> ids (category_nodes g1)
         then Inr (g1\<lparr>in_category :=
                        merge_rel (prod_id row, prod_category_id row) (in_category g1)\<rparr>)
         else Inr g1)"

definition load_customer :: "graph \<Rightarrow> customer_row \<Rightarrow> error + graph" where
  "load_customer g row =
     (case date (str_date (cust_join_date row)) of
        Inl e \<Rightarrow> Inl e
      | Inr d \<Rightarrow>
          Inr (g\<lparr>customer_nodes :=
                   merge_set (cust_id row) (cust_name row, d) (customer_nodes g)\<rparr>))"

definition load_order :: "graph \<Rightarrow> order_row \<Rightarrow> error + graph" where
  "load_order g row =
     (case isoformat (ord_ts row) of
        Inl e \<Rightarrow> Inl e
      | Inr ts_iso \<Rightarrow>
          (case datetime ts_iso of
             Inl e \<Rightarrow> Inl e
           | Inr ts \<Rightarrow>
               (let g1 = g\<lparr>order_nodes := merge_set (ord_id row) ts (order_nodes g)\<rparr>
                in if ord_customer_id row \<in> ids (customer_nodes g1)
                   then Inr (g1\<lparr>placed :=
                                  merge_rel (ord_customer_id row, ord_id row) (placed g1)\<rparr>)
                   else Inr g1)))"

definition load_order_item :: "graph \<Rightarrow> order_item_row \<Rightarrow> error + graph" where
  "load_order_item g row =
     (if item_order_id row \<in> ids (order_nodes g) \<and> item_product_id row \<in> ids (product_nodes g)
      then Inr (g\<lparr>contains :=
                     merge_set (item_order_id row, item_product_id row) (item_quantity row)
                       (contains g)\<rparr>)
      else Inr g)"

text \<open>
  In the event statement \<^verbatim>\<open>datetime($ts)\<close> stands in the \<^verbatim>\<open>SET\<close> after the two
  \<^verbatim>\<open>MATCH\<close>es: it is evaluated for the rows they yield, so not at all when an end
  is missing.
\<close>

definition load_event :: "platform \<Rightarrow> graph \<Rightarrow> event_row \<Rightarrow> error + graph" where
  "load_event pf g row =
     (let event_type = upper pf (ev_event_type row) in
      case isoformat (ev_ts row) of
        Inl e \<Rightarrow> Inl e
      | Inr ts_iso \<Rightarrow>
          (case read_type pf event_type of
             None \<Rightarrow> Inl CypherSyntaxError
           | Some rel_type \<Rightarrow>
               if ev_customer_id row \<in> ids (customer_nodes g)
                  \<and> ev_product_id row \<in> ids (product_nodes g)
               then (case datetime ts_iso of
                       Inl e \<Rightarrow> Inl e
                     | Inr ts \<Rightarrow>
                         Inr (g\<lparr>interactions :=
                                  merge_set (ev_customer_id row, ev_product_id row, rel_type) ts
                                    (interactions g)\<rparr>))
               else Inr g))"

text \<open>
  \<^verbatim>\<open>for _, row in df.iterrows(): run_cypher(...)\<close>: the rows in order, each on the graph
  the rows before it left. Nothing in the loop catches an exception, so the first one
  ends the loop; the statements before it are committed.
\<close>

fun for_each_row :: "(graph \<Rightarrow> 'r \<Rightarrow> error + graph) \<Rightarrow> 'r list \<Rightarrow> graph \<Rightarrow> error option \<times> graph" where
  "for_each_row f [] g = (None, g)"
| "for_each_row f (r # rs) g =
     (case f g r of Inl e \<Rightarrow> (Some e, g) | Inr g' \<Rightarrow> for_each_row f rs g')"

section \<open>The ETL run\<close>

text \<open>
  \<^verbatim>\<open>etl()\<close> first waits for the two stores, opens the connections, runs the schema
  file and reads the six tables; the model starts from the tables read
  (\<open>source\<close>) and the graph in the store. The \<^verbatim>\<open>finally\<close> of \<^verbatim>\<open>etl()\<close> closes the
  two connections on every path and lets an exception pass.
\<close>

datatype table = Categories | Products | Customers | Orders | OrderItems | Events

text \<open>The lines that \<^verbatim>\<open>etl()\<close> prints from the extraction on.\<close>

datatype line =
    Extracting           \<comment> \<open>\<^verbatim>\<open>Extracting data from PostgreSQL...\<close>\<close>
  | RowCount table nat   \<comment> \<open>\<^verbatim>\<open>  - Categories: n rows\<close>\<close>
  | LoadingData          \<comment> \<open>\<^verbatim>\<open>Loading data into Neo4j...\<close>\<close>
  | Loading table        \<comment> \<open>\<^verbatim>\<open>Loading Categories...\<close>\<close>
  | Done                 \<comment> \<open>\<^verbatim>\<open>ETL done !\<close>\<close>

text \<open>What a run leaves: the lines printed, the exception that ended it (if any) and
  the graph in the store.\<close>

type_synonym run = "line list \<times> error option \<times> graph"

definition read_source :: "source \<Rightarrow> graph \<Rightarrow> run" where
  "read_source src g =
     ([Extracting,
       RowCount Categories (length (categories_df src)),
       RowCount Products (length (products_df src)),
       RowCount Customers (length (customers_df src)),
       RowCount Orders (length (orders_df src)),
       RowCount OrderItems (length (order_items_df src)),
       RowCount Events (length (events_df src)),
       LoadingData], None, g)"

text \<open>One loading step: skipped when an earlier step has raised.\<close>

definition step :: "table \<Rightarrow> (graph \<Rightarrow> error option \<times> graph) \<Rightarrow> run \<Rightarrow> run" where
  "step t load r =
     (case r of
        (out, Some e, g) \<Rightarrow> (out, Some e, g)
      | (out, None, g) \<Rightarrow> (case load g of (err, g') \<Rightarrow> (out @ [Loading t], err, g')))"

definition finish :: "run \<Rightarrow> run" where
  "finish r =
     (case r of
        (out, Some e, g) \<Rightarrow> (out, Some e, g)
      | (out, None, g) \<Rightarrow> (out @ [Done], None, g))"

definition etl :: "platform \<Rightarrow> source \<Rightarrow> graph \<Rightarrow> run" where
  "etl pf src g =
     finish
      (step Events (for_each_row (load_event pf) (events_df src))
      (step OrderItems (for_each_row load_order_item (order_items_df src))
      (step Orders (for_each_row load_order (orders_df src))
      (step Customers (for_each_row load_customer (customers_df src))
      (step Products (for_each_row load_product (products_df src))
      (step Categories (for_each_row load_category (categories_df src))
      (read_source src g)))))))"

section \<open>The recommendation queries\<close>

text \<open>
  The rows an endpoint returns. The last field is the number the strategy ranks by:
  \<^verbatim>\<open>score\<close>, \<^verbatim>\<open>total_sold\<close> or \<^verbatim>\<open>co_occurrences\<close>.
\<close>

record product_out =
  product_id :: ident
  product_name :: string
  price :: real
  category :: string

record recommendation = product_out +
  score :: int

text \<open>
  \<^verbatim>\<open>(c:Customer)-[:PLACED]->(:Order)-[:CONTAINS]->(p:Product)\<close>: the paths from a
  customer over one of its orders to a product of that order, as (customer, order,
  product).
\<close>

definition purchase_paths :: "graph \<Rightarrow> (ident \<times> ident \<times> ident) list" where
  "purchase_paths g =
     [(c, od, p).
        (c, od) \<leftarrow> placed g, c \<in> ids (customer_nodes g) \<and> od \<in> ids (order_nodes g),
        ((od', p), q) \<leftarrow> contains g, od' = od \<and> p \<in> ids (product_nodes g)]"

text \<open>
  \<^verbatim>\<open>ORDER BY x DESC LIMIT n\<close>. The statements give one sort key and nothing for rows
  that are equal in it; the sort here leaves such rows in the order they came in. The
  limit is the integer of the request, which nothing checks. The driver sends an integer
  as 64 bits and raises for one that does not fit, so the definitions below describe the
  statement that the store runs, for a limit below \<open>2 ^ 63\<close>.
\<close>

definition order_desc :: "('a \<times> int) list \<Rightarrow> ('a \<times> int) list" where
  "order_desc rows = sort_key (\<lambda>(x, n). - n) rows"

definition take_top :: "nat \<Rightarrow> ('a \<times> int) list \<Rightarrow> ('a \<times> int) list" where
  "take_top n rows = take n (order_desc rows)"

text \<open>
  The last part of the three ranked statements:
  \<^verbatim>\<open>MATCH (rec)-[:IN_CATEGORY]->(cat:Category) RETURN rec.id, rec.name, rec.price, cat.name, score\<close>,
  one row for every category relationship of every ranked product.
\<close>

definition with_category :: "graph \<Rightarrow> (ident \<times> int) list \<Rightarrow> recommendation list" where
  "with_category g rows =
     [\<lparr>product_id = p, product_name = name, price = pr, category = cname, score = s\<rparr>.
        (p, s) \<leftarrow> rows,
        (p', name, pr) \<leftarrow> product_nodes g, p' = p,
        (p'', c) \<leftarrow> in_category g, p'' = p,
        (c', cname) \<leftarrow> category_nodes g, c' = c]"

subsection \<open>\<^verbatim>\<open>list_products\<close>\<close>

definition list_products :: "graph \<Rightarrow> product_out list" where
  "list_products g =
     sort_key product_name
       [\<lparr>product_id = p, product_name = name, price = pr, category = cname\<rparr>.
          (p, c) \<leftarrow> in_category g,
          (p', name, pr) \<leftarrow> product_nodes g, p' = p,
          (c', cname) \<leftarrow> category_nodes g, c' = c]"

subsection \<open>\<^verbatim>\<open>collaborative_filtering\<close>\<close>

text \<open>\<^verbatim>\<open>collect(p) AS customer_products\<close>: one entry for every path.\<close>

definition customer_products :: "graph \<Rightarrow> ident \<Rightarrow> ident list" where
  "customer_products g customer_id = [p. (c, od, p) \<leftarrow> purchase_paths g, c = customer_id]"

text \<open>
  The second \<^verbatim>\<open>MATCH\<close> with \<^verbatim>\<open>WHERE other <> c AND p IN customer_products\<close>, then
  \<^verbatim>\<open>count(p) AS common_products\<close> for every \<^verbatim>\<open>other\<close>: the number of its paths that
  end in one of the customer's products.
\<close>

definition shared_paths :: "graph \<Rightarrow> ident \<Rightarrow> ident list" where
  "shared_paths g customer_id =
     [other. (other, od, p) \<leftarrow> purchase_paths g,
        other \<noteq> customer_id \<and> p \<in> set (customer_products g customer_id)]"

definition common_products :: "graph \<Rightarrow> ident \<Rightarrow> (ident \<times> int) list" where
  "common_products g customer_id =
     [(other, int (count_list (shared_paths g customer_id) other)).
        other \<leftarrow> remdups (shared_paths g customer_id)]"

text \<open>\<^verbatim>\<open>ORDER BY common_products DESC LIMIT 10\<close>\<close>

definition neighbours :: "graph \<Rightarrow> ident \<Rightarrow> ident list" where
  "neighbours g customer_id = map fst (take_top 10 (common_products g customer_id))"

text \<open>
  The third \<^verbatim>\<open>MATCH\<close> with \<^verbatim>\<open>WHERE NOT rec IN customer_products\<close>, as (rec, other),
  then \<^verbatim>\<open>count(DISTINCT other) AS score\<close> for every \<^verbatim>\<open>rec\<close>.
\<close>

definition neighbour_purchases :: "graph \<Rightarrow> ident \<Rightarrow> (ident \<times> ident) list" where
  "neighbour_purchases g customer_id =
     [(rec, other).
        other \<leftarrow> neighbours g customer_id,
        (c, od, rec) \<leftarrow> purchase_paths g,
        c = other \<and> rec \<notin> set (customer_products g customer_id)]"

definition neighbour_scores :: "graph \<Rightarrow> ident \<Rightarrow> (ident \<times> int) list" where
  "neighbour_scores g customer_id =
     [(rec, int (length (remdups [other. (rec', other) \<leftarrow> neighbour_purchases g customer_id,
                                      rec' = rec]))).
        rec \<leftarrow> remdups (map fst (neighbour_purchases g customer_id))]"

text \<open>
  \<^verbatim>\<open>WITH c, collect(p)\<close> groups by the customer, so it yields no row when the first
  \<^verbatim>\<open>MATCH\<close> found no path, and the rest of the statement has nothing to work on. A
  negative \<^verbatim>\<open>$limit\<close> is refused by the store.
\<close>

definition collaborative_filtering :: "graph \<Rightarrow> ident \<Rightarrow> int \<Rightarrow> error + recommendation list" where
  "collaborative_filtering g customer_id limit =
     (if limit < 0 then Inl CypherArgumentError
      else if customer_products g customer_id = [] then Inr []
      else Inr (with_category g (take_top (nat limit) (neighbour_scores g customer_id))))"

subsection \<open>\<^verbatim>\<open>content_based\<close>\<close>

text \<open>\<^verbatim>\<open>collect(DISTINCT cat) AS liked_categories\<close> over the customer's paths continued
  by \<^verbatim>\<open>-[:IN_CATEGORY]->(cat:Category)\<close>.\<close>

definition liked_categories :: "graph \<Rightarrow> ident \<Rightarrow> ident list" where
  "liked_categories g customer_id =
     remdups
       [cat. (c, od, p) \<leftarrow> purchase_paths g, c = customer_id,
             (p', cat) \<leftarrow> in_category g, p' = p \<and> cat \<in> ids (category_nodes g)]"

text \<open>
  The second \<^verbatim>\<open>MATCH (rec:Product)-[:IN_CATEGORY]->(cat:Category)\<close> with its
  \<^verbatim>\<open>WHERE\<close>, then \<^verbatim>\<open>WITH rec, cat, count(*) AS relevance\<close>.
\<close>

definition category_matches :: "graph \<Rightarrow> ident \<Rightarrow> (ident \<times> ident) list" where
  "category_matches g customer_id =
     [(rec, cat).
        (rec, cat) \<leftarrow> in_category g,
        rec \<in> ids (product_nodes g) \<and> cat \<in> ids (category_nodes g)
          \<and> cat \<in> set (liked_categories g customer_id)
          \<and> rec \<notin> set (customer_products g customer_id)]"

definition relevance :: "graph \<Rightarrow> ident \<Rightarrow> ((ident \<times> ident) \<times> int) list" where
  "relevance g customer_id =
     [(m, int (count_list (category_matches g customer_id) m)).
        m \<leftarrow> remdups (category_matches g customer_id)]"

definition content_based :: "graph \<Rightarrow> ident \<Rightarrow> int \<Rightarrow> error + product_out list" where
  "content_based g customer_id limit =
     (if limit < 0 then Inl CypherArgumentError
      else if liked_categories g customer_id = [] then Inr []
      else Inr
        [\<lparr>product_id = rec, product_name = name, price = pr, category = cname\<rparr>.
           ((rec, cat), n) \<leftarrow> take_top (nat limit) (relevance g customer_id),
           (p, name, pr) \<leftarrow> product_nodes g, p = rec,
           (c, cname) \<leftarrow> category_nodes g, c = cat])"

subsection \<open>\<^verbatim>\<open>popular_products\<close>\<close>

text \<open>\<^verbatim>\<open>MATCH (p:Product)<-[r:CONTAINS]-(:Order) WITH p, sum(r.quantity) AS total_sold\<close>\<close>

definition sold :: "graph \<Rightarrow> (ident \<times> int) list" where
  "sold g =
     [(p, q). ((od, p), q) \<leftarrow> contains g,
        od \<in> ids (order_nodes g) \<and> p \<in> ids (product_nodes g)]"

definition total_sold :: "graph \<Rightarrow> (ident \<times> int) list" where
  "total_sold g =
     [(p, sum_list [q. (p', q) \<leftarrow> sold g, p' = p]). p \<leftarrow> remdups (map fst (sold g))]"

definition popular_products :: "graph \<Rightarrow> int \<Rightarrow> error + recommendation list" where
  "popular_products g limit =
     (if limit < 0 then Inl CypherArgumentError
      else Inr (with_category g (take_top (nat limit) (total_sold g))))"

subsection \<open>\<^verbatim>\<open>frequently_bought_together\<close>\<close>

text \<open>
  \<^verbatim>\<open>MATCH (p:Product {id: $product_id})<-[:CONTAINS]-(o:Order)-[:CONTAINS]->(rec:Product)
  WHERE rec <> p\<close>, as (od, rec), then \<^verbatim>\<open>count(DISTINCT o) AS co_occurrences\<close> for every
  \<^verbatim>\<open>rec\<close>.
\<close>

definition bought_with :: "graph \<Rightarrow> ident \<Rightarrow> (ident \<times> ident) list" where
  "bought_with g pid =
     [(od, rec).
        ((od, p), q) \<leftarrow> contains g,
        p = pid \<and> p \<in> ids (product_nodes g) \<and> od \<in> ids (order_nodes g),
        ((od', rec), q') \<leftarrow> contains g,
        od' = od \<and> rec \<in> ids (product_nodes g) \<and> rec \<noteq> pid]"

definition co_occurrences :: "graph \<Rightarrow> ident \<Rightarrow> (ident \<times> int) list" where
  "co_occurrences g pid =
     [(rec, int (length (remdups [od. (od, rec') \<leftarrow> bought_with g pid, rec' = rec]))).
        rec \<leftarrow> remdups (map snd (bought_with g pid))]"

definition frequently_bought_together :: "graph \<Rightarrow> ident \<Rightarrow> int \<Rightarrow> error + recommendation list" where
  "frequently_bought_together g pid limit =
     (if limit < 0 then Inl CypherArgumentError
      else Inr (with_category g (take_top (nat limit) (co_occurrences g pid))))"

section \<open>What a completed loading step has done\<close>

text \<open>
  The definitions of this section describe the graph a loading loop leaves when no row of
  it raises, and the rows for which that is the case. They are used to state and prove
  the facts about \<open>etl\<close> below.
\<close>

definition merge_all :: "('k \<times> 'v) list \<Rightarrow> ('k \<times> 'v) list \<Rightarrow> ('k \<times> 'v) list" where
  "merge_all kvs al = fold (\<lambda>(k, v). merge_set k v) kvs al"

definition merge_rels :: "'e list \<Rightarrow> 'e list \<Rightarrow> 'e list" where
  "merge_rels es x = fold merge_rel es x"

fun is_timestamp :: "ts_cell \<Rightarrow> bool" where
  "is_timestamp (Timestamp t) = True"
| "is_timestamp NaT = False"
| "is_timestamp NotATimestamp = False"

fun instant :: "ts_cell \<Rightarrow> nat" where
  "instant (Timestamp t) = t"
| "instant NaT = 0"
| "instant NotATimestamp = 0"

fun day :: "date_cell \<Rightarrow> nat" where
  "day (Date d) = d"
| "day NoDate = 0"

definition categories_loaded :: "category_row list \<Rightarrow> graph \<Rightarrow> graph" where
  "categories_loaded rows g =
     g\<lparr>category_nodes := merge_all (map (\<lambda>r. (cat_id r, cat_name r)) rows) (category_nodes g)\<rparr>"

definition products_loaded :: "product_row list \<Rightarrow> graph \<Rightarrow> graph" where
  "products_loaded rows g =
     g\<lparr>product_nodes :=
         merge_all (map (\<lambda>r. (prod_id r, prod_name r, prod_price r)) rows) (product_nodes g),
       in_category :=
         merge_rels (map (\<lambda>r. (prod_id r, prod_category_id r))
                      (filter (\<lambda>r. prod_category_id r \<in> ids (category_nodes g)) rows))
           (in_category g)\<rparr>"

definition customers_loaded :: "customer_row list \<Rightarrow> graph \<Rightarrow> graph" where
  "customers_loaded rows g =
     g\<lparr>customer_nodes :=
         merge_all (map (\<lambda>r. (cust_id r, cust_name r, day (cust_join_date r))) rows)
           (customer_nodes g)\<rparr>"

definition orders_loaded :: "order_row list \<Rightarrow> graph \<Rightarrow> graph" where
  "orders_loaded rows g =
     g\<lparr>order_nodes := merge_all (map (\<lambda>r. (ord_id r, instant (ord_ts r))) rows) (order_nodes g),
       placed :=
         merge_rels (map (\<lambda>r. (ord_customer_id r, ord_id r))
                      (filter (\<lambda>r. ord_customer_id r \<in> ids (customer_nodes g)) rows))
           (placed g)\<rparr>"

definition order_items_loaded :: "order_item_row list \<Rightarrow> graph \<Rightarrow> graph" where
  "order_items_loaded rows g =
     g\<lparr>contains :=
         merge_all (map (\<lambda>r. ((item_order_id r, item_product_id r), item_quantity r))
                     (filter (\<lambda>r. item_order_id r \<in> ids (order_nodes g)
                                  \<and> item_product_id r \<in> ids (product_nodes g)) rows))
           (contains g)\<rparr>"

definition ends_present :: "graph \<Rightarrow> event_row \<Rightarrow> bool" where
  "ends_present g r =
     (ev_customer_id r \<in> ids (customer_nodes g) \<and> ev_product_id r \<in> ids (product_nodes g))"

definition rel_type_of :: "platform \<Rightarrow> event_row \<Rightarrow> string" where
  "rel_type_of pf r =
     (case read_type pf (upper pf (ev_event_type r)) of Some t \<Rightarrow> t | None \<Rightarrow> [])"

definition events_loaded :: "platform \<Rightarrow> event_row list \<Rightarrow> graph \<Rightarrow> graph" where
  "events_loaded pf rows g =
     g\<lparr>interactions :=
         merge_all (map (\<lambda>r. ((ev_customer_id r, ev_product_id r, rel_type_of pf r),
                               instant (ev_ts r)))
                     (filter (ends_present g) rows))
           (interactions g)\<rparr>"

definition event_loads :: "platform \<Rightarrow> graph \<Rightarrow> event_row \<Rightarrow> bool" where
  "event_loads pf g r =
     (ev_ts r \<noteq> NotATimestamp \<and> read_type pf (upper pf (ev_event_type r)) \<noteq> None
      \<and> (ends_present g r \<longrightarrow> is_timestamp (ev_ts r)))"

definition loaded :: "platform \<Rightarrow> source \<Rightarrow> graph \<Rightarrow> graph" where
  "loaded pf src g =
     events_loaded pf (events_df src)
      (order_items_loaded (order_items_df src)
      (orders_loaded (orders_df src)
      (customers_loaded (customers_df src)
      (products_loaded (products_df src)
      (categories_loaded (categories_df src) g)))))"

definition loadable :: "platform \<Rightarrow> source \<Rightarrow> graph \<Rightarrow> bool" where
  "loadable pf src g =
     (list_all (\<lambda>r. cust_join_date r \<noteq> NoDate) (customers_df src)
      \<and> list_all (\<lambda>r. is_timestamp (ord_ts r)) (orders_df src)
      \<and> list_all (event_loads pf (customers_loaded (customers_df src)
                                  (products_loaded (products_df src) g)))
           (events_df src))"

definition printed :: "source \<Rightarrow> line list" where
  "printed src =
     [Extracting,
      RowCount Categories (length (categories_df src)),
      RowCount Products (length (products_df src)),
      RowCount Customers (length (customers_df src)),
      RowCount Orders (length (orders_df src)),
      RowCount OrderItems (length (order_items_df src)),
      RowCount Events (length (events_df src)),
      LoadingData, Loading Categories, Loading Products, Loading Customers, Loading Orders,
      Loading OrderItems, Loading Events, Done]"

text \<open>The event types that the comment in the event loader names.\<close>

definition known_event_types :: "string list" where
  "known_event_types = [''VIEW'', ''CLICK'', ''ADD_TO_CART'']"

text \<open>
  A platform for the runs evaluated below. Their texts are ASCII and their event types
  plain names, so neither of its parts is consulted.
\<close>

definition plain_platform :: platform where
  "plain_platform = \<lparr>str_upper = (\<lambda>s. s), reads_type = (\<lambda>s. None)\<rparr>"



section \<open>What the ranked statements count\<close>

text \<open>
  The quantities of the specification, written from its words on the graph; the facts
  below compare them with what the statements compute.
\<close>

text \<open>The total quantity of a product over the \<^verbatim>\<open>CONTAINS\<close> relationships of all orders.\<close>

definition quantity_sold :: "graph \<Rightarrow> ident \<Rightarrow> int" where
  "quantity_sold g p =
     sum_list [q. ((od, p'), q) \<leftarrow> contains g, p' = p \<and> od \<in> ids (order_nodes g)]"

text \<open>The orders that contain both of two products.\<close>

definition orders_with_both :: "graph \<Rightarrow> ident \<Rightarrow> ident \<Rightarrow> ident list" where
  "orders_with_both g x p =
     remdups [od. (od, t) \<leftarrow> order_nodes g,
                (od, x) \<in> ids (contains g) \<and> (od, p) \<in> ids (contains g)]"

text \<open>The product has an \<^verbatim>\<open>IN_CATEGORY\<close> relationship to a category node of that name.\<close>

definition categorised :: "graph \<Rightarrow> ident \<Rightarrow> string \<Rightarrow> bool" where
  "categorised g p cname =
     (\<exists>(p', c)\<in>set (in_category g). p' = p \<and> (c, cname) \<in> set (category_nodes g))"

text \<open>The number of purchases of customer \<open>m\<close> (paths over an order to a product) whose product
  customer \<open>c\<close> has purchased too.\<close>

definition overlap :: "graph \<Rightarrow> ident \<Rightarrow> ident \<Rightarrow> int" where
  "overlap g c m =
     int (length [p \<leftarrow> customer_products g m. p \<in> set (customer_products g c)])"

text \<open>The neighbours of customer \<open>c\<close> who have purchased product \<open>p\<close>.\<close>

definition buying_neighbours :: "graph \<Rightarrow> ident \<Rightarrow> ident \<Rightarrow> ident list" where
  "buying_neighbours g c p = [n \<leftarrow> neighbours g c. p \<in> set (customer_products g n)]"

text \<open>
  The first \<open>n\<close> of the candidates in descending order of their rank: \<open>n\<close> of them, or
  all of them when they are fewer, each once and with its rank, in descending order, and
  no candidate left out ranks higher than one taken. Nothing is said about candidates of
  equal rank.
\<close>

definition top_ranked :: "nat \<Rightarrow> 'a set \<Rightarrow> ('a \<Rightarrow> int) \<Rightarrow> ('a \<times> int) list \<Rightarrow> bool" where
  "top_ranked n candidates rank ranked \<longleftrightarrow>
     distinct (map fst ranked)
     \<and> (\<forall>(k, v)\<in>set ranked. k \<in> candidates \<and> v = rank k)
     \<and> length ranked = min n (card candidates)
     \<and> sorted_wrt (\<lambda>a b. snd b \<le> snd a) ranked
     \<and> (\<forall>k\<in>candidates. k \<notin> fst ` set ranked \<longrightarrow> (\<forall>(k', v')\<in>set ranked. rank k \<le> v'))"

section \<open>Facts about the loader\<close>

lemma ids_merge_set: "ids (merge_set k v al) = insert k (ids al)"
  by (force simp: merge_set_def ids_def split: if_splits)

lemma in_merge_set:
  "(k, v) \<in> set (merge_set k0 v0 al) \<longleftrightarrow> (if k = k0 then v = v0 \<and> True else (k, v) \<in> set al)"
  by (force simp: merge_set_def ids_def split: if_splits)

lemma merge_all_Nil: "merge_all [] al = al"
  by (simp add: merge_all_def)

lemma merge_all_Cons: "merge_all ((k, v) # kvs) al = merge_all kvs (merge_set k v al)"
  by (simp add: merge_all_def)


lemma ids_merge_all: "ids (merge_all kvs al) = ids al \<union> fst ` set kvs"
  by (induction kvs arbitrary: al) (simp add: merge_all_Nil, force simp: merge_all_Cons ids_merge_set)




lemma set_merge_rels: "set (merge_rels es x) = set x \<union> set es"
  by (induction es arbitrary: x) (auto simp: merge_rels_def merge_rel_def)



lemma for_each_row_append:
  "for_each_row f (pre @ post) g =
     (case for_each_row f pre g of
        (Some e, g') \<Rightarrow> (Some e, g')
      | (None, g') \<Rightarrow> for_each_row f post g')"
  by (induction pre arbitrary: g) (auto split: sum.splits)

lemma categories_run:
  "for_each_row load_category rows g = (None, categories_loaded rows g)"
  by (induction rows arbitrary: g)
     (simp_all add: categories_loaded_def merge_all_Nil merge_all_Cons load_category_def)

lemma products_run:
  "for_each_row load_product rows g = (None, products_loaded rows g)"
  by (induction rows arbitrary: g)
     (simp_all add: products_loaded_def merge_all_Nil merge_all_Cons load_product_def
        merge_rels_def Let_def)

lemma order_items_run:
  "for_each_row load_order_item rows g = (None, order_items_loaded rows g)"
  by (induction rows arbitrary: g)
     (simp_all add: order_items_loaded_def merge_all_Nil merge_all_Cons load_order_item_def)

lemma load_customer_cases:
  "load_customer g r =
     (case cust_join_date r of
        NoDate \<Rightarrow> Inl CypherArgumentError
      | Date d \<Rightarrow> Inr (g\<lparr>customer_nodes := merge_set (cust_id r) (cust_name r, d) (customer_nodes g)\<rparr>))"
  by (simp add: load_customer_def split: date_cell.splits)

lemma customers_run:
  "for_each_row load_customer rows g = (None, g') \<longleftrightarrow>
     (list_all (\<lambda>r. cust_join_date r \<noteq> NoDate) rows \<and> g' = customers_loaded rows g)"
  by (induction rows arbitrary: g)
     (auto simp: customers_loaded_def merge_all_Nil merge_all_Cons load_customer_cases
        split: date_cell.splits)

lemma load_order_cases:
  "load_order g r =
     (case ord_ts r of
        NotATimestamp \<Rightarrow> Inl AttributeError
      | NaT \<Rightarrow> Inl CypherArgumentError
      | Timestamp t \<Rightarrow>
          Inr (orders_loaded [r] g))"
  by (simp add: load_order_def orders_loaded_def merge_all_Nil merge_all_Cons merge_rels_def Let_def
      split: ts_cell.splits)

lemma orders_loaded_Cons:
  "orders_loaded (r # rows) g = orders_loaded rows (orders_loaded [r] g)"
  by (simp add: orders_loaded_def merge_all_Nil merge_all_Cons merge_rels_def)

lemma orders_run:
  "for_each_row load_order rows g = (None, g') \<longleftrightarrow>
     (list_all (\<lambda>r. is_timestamp (ord_ts r)) rows \<and> g' = orders_loaded rows g)"
proof (induction rows arbitrary: g)
  case Nil
  show ?case by (auto simp: orders_loaded_def merge_all_Nil merge_rels_def)
next
  case (Cons r rows)
  show ?case
    using load_order_cases [of g r] Cons.IH [of "orders_loaded [r] g"]
    by (cases "ord_ts r") (simp_all add: orders_loaded_Cons [of r rows])
qed

lemma load_event_cases:
  "load_event pf g r =
     (if ev_ts r = NotATimestamp then Inl AttributeError
      else if read_type pf (upper pf (ev_event_type r)) = None then Inl CypherSyntaxError
      else if \<not> ends_present g r then Inr g
      else if ev_ts r = NaT then Inl CypherArgumentError
      else Inr (events_loaded pf [r] g))"
  by (cases "ev_ts r"; cases "read_type pf (upper pf (ev_event_type r))")
     (simp_all add: load_event_def events_loaded_def rel_type_of_def ends_present_def
        merge_all_Nil merge_all_Cons Let_def)

lemma ends_present_interactions: "ends_present (g\<lparr>interactions := x\<rparr>) = ends_present g"
  by (rule ext) (simp add: ends_present_def)

lemma events_loaded_Cons:
  "events_loaded pf (r # rows) g = events_loaded pf rows (events_loaded pf [r] g)"
  by (simp add: events_loaded_def ends_present_interactions merge_all_Nil merge_all_Cons)

lemma events_loaded_absent:
  "\<not> ends_present g r \<Longrightarrow> events_loaded pf (r # rows) g = events_loaded pf rows g"
  by (simp add: events_loaded_def)

lemma event_loads_step: "event_loads pf (events_loaded pf [r] g) = event_loads pf g"
  by (rule ext) (simp add: event_loads_def events_loaded_def ends_present_def)

lemma events_run:
  "for_each_row (load_event pf) rows g = (None, g') \<longleftrightarrow>
     (list_all (event_loads pf g) rows \<and> g' = events_loaded pf rows g)"
proof (induction rows arbitrary: g)
  case Nil
  show ?case by (auto simp: events_loaded_def merge_all_Nil)
next
  case (Cons r rows)
  have here: "event_loads pf g r \<longleftrightarrow>
      ev_ts r \<noteq> NotATimestamp \<and> read_type pf (upper pf (ev_event_type r)) \<noteq> None
      \<and> (ends_present g r \<longrightarrow> is_timestamp (ev_ts r))"
    by (simp add: event_loads_def)
  show ?case
  proof (cases "ends_present g r")
    case True
    then show ?thesis
      using load_event_cases [of pf g r] Cons.IH [of "events_loaded pf [r] g"] here
      by (cases "ev_ts r") (simp_all add: events_loaded_Cons [of pf r rows] event_loads_step)
  next
    case False
    then show ?thesis
      using load_event_cases [of pf g r] Cons.IH [of g] here
      by (cases "ev_ts r") (auto simp: events_loaded_absent)
  qed
qed

lemma event_loads_cong:
  "ids (customer_nodes g) = ids (customer_nodes h) \<Longrightarrow>
   ids (product_nodes g) = ids (product_nodes h) \<Longrightarrow> event_loads pf g = event_loads pf h"
  by (rule ext) (simp add: event_loads_def ends_present_def)

lemma step_None:
  "step t load (out, None, g) = (out @ [Loading t], fst (load g), snd (load g))"
  by (simp add: step_def split: prod.splits)

lemma step_Some: "step t load (out, Some e, g) = (out, Some e, g)"
  by (simp add: step_def)

lemma etl_completes_iff:
  "etl pf src g = (out, None, g') \<longleftrightarrow> loadable pf src g \<and> out = printed src \<and> g' = loaded pf src g"
proof -
  let ?g2 = "products_loaded (products_df src) (categories_loaded (categories_df src) g)"
  obtain e3 g3 where r3: "for_each_row load_customer (customers_df src) ?g2 = (e3, g3)"
    by (cases "for_each_row load_customer (customers_df src) ?g2")
  obtain e4 g4 where r4: "for_each_row load_order (orders_df src) g3 = (e4, g4)"
    by (cases "for_each_row load_order (orders_df src) g3")
  let ?g5 = "order_items_loaded (order_items_df src) g4"
  obtain e6 g6 where r6: "for_each_row (load_event pf) (events_df src) ?g5 = (e6, g6)"
    by (cases "for_each_row (load_event pf) (events_df src) ?g5")
  have ev: "event_loads pf (order_items_loaded its (orders_loaded os (customers_loaded cs h)))
      = event_loads pf (customers_loaded cs h)" for its os cs h
    by (rule event_loads_cong)
       (simp_all add: order_items_loaded_def orders_loaded_def customers_loaded_def)
  have ev': "event_loads pf (customers_loaded cs (products_loaded ps (categories_loaded cats h)))
      = event_loads pf (customers_loaded cs (products_loaded ps h))" for cs ps cats h
    by (rule event_loads_cong)
       (simp_all add: customers_loaded_def products_loaded_def categories_loaded_def)
  have c3: "\<not> list_all (\<lambda>r. cust_join_date r \<noteq> NoDate) (customers_df src)" if "e3 = Some e" for e
    using that r3 customers_run [of "customers_df src" ?g2 "customers_loaded (customers_df src) ?g2"]
    by auto
  have c4: "\<not> list_all (\<lambda>r. is_timestamp (ord_ts r)) (orders_df src)" if "e4 = Some e" for e
    using that r4 orders_run [of "orders_df src" g3 "orders_loaded (orders_df src) g3"]
    by auto
  have c6: "\<not> list_all (event_loads pf ?g5) (events_df src)" if "e6 = Some e" for e
    using that r6 events_run [of pf "events_df src" ?g5 "events_loaded pf (events_df src) ?g5"]
    by auto
  show ?thesis
  proof (cases e3)
    case (Some e)
    then show ?thesis
      using r3 c3 [of e]
      by (auto simp: etl_def read_source_def step_None step_Some categories_run products_run
          finish_def loadable_def)
  next
    case None
    note e3 = this
    then have g3: "g3 = customers_loaded (customers_df src) ?g2"
      and v3: "list_all (\<lambda>r. cust_join_date r \<noteq> NoDate) (customers_df src)"
      using r3 customers_run [of "customers_df src" ?g2 g3] by auto
    show ?thesis
    proof (cases e4)
      case (Some e)
      then show ?thesis
        using r3 r4 e3 c4 [of e]
        by (auto simp: etl_def read_source_def step_None step_Some categories_run products_run
            finish_def loadable_def)
    next
      case None
      note e4 = this
      then have g4: "g4 = orders_loaded (orders_df src) g3"
        and v4: "list_all (\<lambda>r. is_timestamp (ord_ts r)) (orders_df src)"
        using r4 orders_run [of "orders_df src" g3 g4] by auto
      have run: "etl pf src g = finish (butlast (printed src), e6, g6)"
        using r3 r4 r6 e3 e4
        by (simp add: etl_def read_source_def step_None step_Some categories_run products_run
            order_items_run printed_def)
      show ?thesis
      proof (cases e6)
        case (Some e)
        then show ?thesis
          using run c6 [of e] v3 v4
          by (auto simp: finish_def loadable_def g4 g3 ev ev')
      next
        case None
        then show ?thesis
          using run r6 events_run [of pf "events_df src" ?g5 g6] v3 v4
          by (auto simp: finish_def loadable_def g4 g3 ev ev' loaded_def printed_def)
      qed
    qed
  qed
qed




lemma etl_parts:
  "etl pf src g =
     finish
      (step Events (for_each_row (load_event pf) (events_df src))
      (step OrderItems (for_each_row load_order_item (order_items_df src))
      (step Orders (for_each_row load_order (orders_df src))
      (step Customers (for_each_row load_customer (customers_df src))
        (take 8 (printed src) @ [Loading Categories, Loading Products], None,
         products_loaded (products_df src) (categories_loaded (categories_df src) g))))))"
  by (simp add: etl_def read_source_def step_None categories_run products_run printed_def)

lemma events_loaded_Nil: "events_loaded pf [] g = g"
  by (simp add: events_loaded_def merge_all_Nil)

lemma order_items_loaded_Nil: "order_items_loaded [] g = g"
  by (simp add: order_items_loaded_def merge_all_Nil)

lemma orders_loaded_Nil: "orders_loaded [] g = g"
  by (simp add: orders_loaded_def merge_all_Nil merge_rels_def)

lemma for_each_row_fails_at:
  assumes "for_each_row f pre g = (None, g1)" and "f g1 row = Inl e"
  shows "for_each_row f (pre @ row # post) g = (Some e, g1)"
  using assms by (simp add: for_each_row_append)

lemma etl_customer_failure:
  assumes rows: "customers_df src = pre @ row # post"
    and cut: "etl pf (src\<lparr>customers_df := pre, orders_df := [], order_items_df := [], events_df := []\<rparr>) g
                = (out, None, g1)"
    and fails: "load_customer g1 row = Inl e"
  shows "fst (snd (etl pf src g)) = Some e \<and> snd (snd (etl pf src g)) = g1 \<and> Done \<notin> set (fst (etl pf src g))"
proof -
  let ?g2 = "products_loaded (products_df src) (categories_loaded (categories_df src) g)"
  from cut have g1: "g1 = customers_loaded pre ?g2" and ok: "list_all (\<lambda>r. cust_join_date r \<noteq> NoDate) pre"
    by (simp_all add: etl_completes_iff loaded_def loadable_def events_loaded_Nil
        order_items_loaded_Nil orders_loaded_Nil)
  from ok have "for_each_row load_customer pre ?g2 = (None, g1)"
    by (simp add: customers_run g1)
  then have "for_each_row load_customer (customers_df src) ?g2 = (Some e, g1)"
    unfolding rows using fails by (rule for_each_row_fails_at)
  then show ?thesis
    by (simp add: etl_parts step_None step_Some finish_def printed_def)
qed

lemma etl_order_failure:
  assumes rows: "orders_df src = pre @ row # post"
    and cut: "etl pf (src\<lparr>orders_df := pre, order_items_df := [], events_df := []\<rparr>) g = (out, None, g1)"
    and fails: "load_order g1 row = Inl e"
  shows "fst (snd (etl pf src g)) = Some e \<and> snd (snd (etl pf src g)) = g1 \<and> Done \<notin> set (fst (etl pf src g))"
proof -
  let ?g2 = "products_loaded (products_df src) (categories_loaded (categories_df src) g)"
  let ?g3 = "customers_loaded (customers_df src) ?g2"
  from cut have g1: "g1 = orders_loaded pre ?g3"
    and ok3: "list_all (\<lambda>r. cust_join_date r \<noteq> NoDate) (customers_df src)"
    and ok4: "list_all (\<lambda>r. is_timestamp (ord_ts r)) pre"
    by (simp_all add: etl_completes_iff loaded_def loadable_def events_loaded_Nil
        order_items_loaded_Nil)
  from ok3 have r3: "for_each_row load_customer (customers_df src) ?g2 = (None, ?g3)"
    by (simp add: customers_run)
  from ok4 have "for_each_row load_order pre ?g3 = (None, g1)"
    by (simp add: orders_run g1)
  then have "for_each_row load_order (orders_df src) ?g3 = (Some e, g1)"
    unfolding rows using fails by (rule for_each_row_fails_at)
  then show ?thesis
    using r3 by (simp add: etl_parts step_None step_Some finish_def printed_def)
qed

lemma etl_event_failure:
  assumes rows: "events_df src = pre @ row # post"
    and cut: "etl pf (src\<lparr>events_df := pre\<rparr>) g = (out, None, g1)"
    and fails: "load_event pf g1 row = Inl e"
  shows "fst (snd (etl pf src g)) = Some e \<and> snd (snd (etl pf src g)) = g1 \<and> Done \<notin> set (fst (etl pf src g))"
proof -
  let ?g2 = "products_loaded (products_df src) (categories_loaded (categories_df src) g)"
  let ?g3 = "customers_loaded (customers_df src) ?g2"
  let ?g4 = "orders_loaded (orders_df src) ?g3"
  let ?g5 = "order_items_loaded (order_items_df src) ?g4"
  have ev: "event_loads pf ?g5 = event_loads pf (customers_loaded (customers_df src) (products_loaded (products_df src) g))"
    by (rule event_loads_cong)
       (simp_all add: order_items_loaded_def orders_loaded_def customers_loaded_def
          products_loaded_def categories_loaded_def)
  from cut have g1: "g1 = events_loaded pf pre ?g5"
    and ok3: "list_all (\<lambda>r. cust_join_date r \<noteq> NoDate) (customers_df src)"
    and ok4: "list_all (\<lambda>r. is_timestamp (ord_ts r)) (orders_df src)"
    and ok6: "list_all (event_loads pf ?g5) pre"
    by (simp_all add: etl_completes_iff loaded_def loadable_def ev)
  from ok3 have r3: "for_each_row load_customer (customers_df src) ?g2 = (None, ?g3)"
    by (simp add: customers_run)
  from ok4 have r4: "for_each_row load_order (orders_df src) ?g3 = (None, ?g4)"
    by (simp add: orders_run)
  from ok6 have "for_each_row (load_event pf) pre ?g5 = (None, g1)"
    by (simp add: events_run g1)
  then have "for_each_row (load_event pf) (events_df src) ?g5 = (Some e, g1)"
    unfolding rows using fails by (rule for_each_row_fails_at)
  then show ?thesis
    using r3 r4 by (simp add: etl_parts step_None step_Some finish_def printed_def order_items_run)
qed

lemma merge_rels_Cons: "merge_rels (e # es) x = merge_rels es (merge_rel e x)"
  by (simp add: merge_rels_def)

lemma distinct_merge_rel: "distinct x \<Longrightarrow> distinct (merge_rel e x)"
  by (simp add: merge_rel_def)

lemma distinct_merge_rels: "distinct x \<Longrightarrow> distinct (merge_rels es x)"
proof (induction es arbitrary: x)
  case Nil
  then show ?case by (simp add: merge_rels_def)
next
  case (Cons e es)
  then show ?case by (simp add: merge_rels_Cons distinct_merge_rel)
qed

lemma filter_eq_single: "distinct xs \<Longrightarrow> a \<in> set xs \<Longrightarrow> filter (\<lambda>x. x = a) xs = [a]"
proof (induction xs)
  case Nil
  then show ?case by simp
next
  case (Cons x xs)
  show ?case
  proof (cases "x = a")
    case True
    then have "a \<notin> set xs" using Cons.prems by simp
    then have "\<forall>x\<in>set xs. x \<noteq> a" by blast
    then have "filter (\<lambda>x. x = a) xs = []" by (simp add: filter_empty_conv)
    then show ?thesis using True by simp
  next
    case False
    then show ?thesis using Cons by simp
  qed
qed

lemma filter_single:
  assumes "distinct xs" and "a \<in> set xs" and "\<forall>x\<in>set xs. P x \<longleftrightarrow> x = a"
  shows "filter P xs = [a]"
proof -
  have "filter P xs = filter (\<lambda>x. x = a) xs"
    using assms(3) by (intro filter_cong) simp_all
  then show ?thesis using assms(1,2) by (simp add: filter_eq_single)
qed

lemma edges_from: "[c'. (p', c') \<leftarrow> es, p' = p] = map snd (filter (\<lambda>e. fst e = p) es)"
  by (induction es) (simp_all split: prod.splits)

lemma load_product_without_category:
  assumes "prod_category_id row \<notin> ids (category_nodes g)"
  shows "load_product g row =
     Inr (g\<lparr>product_nodes := merge_set (prod_id row) (prod_name row, prod_price row) (product_nodes g)\<rparr>)"
  using assms by (simp add: load_product_def Let_def)

lemma loaded_category_nodes:
  "category_nodes (loaded pf src g) =
     merge_all (map (\<lambda>r. (cat_id r, cat_name r)) (categories_df src)) (category_nodes g)"
  by (simp add: loaded_def events_loaded_def order_items_loaded_def orders_loaded_def
      customers_loaded_def products_loaded_def categories_loaded_def)

lemma loaded_product_nodes:
  "product_nodes (loaded pf src g) =
     merge_all (map (\<lambda>r. (prod_id r, prod_name r, prod_price r)) (products_df src))
       (product_nodes g)"
  by (simp add: loaded_def events_loaded_def order_items_loaded_def orders_loaded_def
      customers_loaded_def products_loaded_def categories_loaded_def)

lemma loaded_in_category:
  "in_category (loaded pf src g) =
     merge_rels (map (\<lambda>r. (prod_id r, prod_category_id r))
                  (filter (\<lambda>r. prod_category_id r
                                 \<in> ids (category_nodes g) \<union> cat_id ` set (categories_df src))
                     (products_df src)))
       (in_category g)"
  by (simp add: loaded_def events_loaded_def order_items_loaded_def orders_loaded_def
      customers_loaded_def products_loaded_def categories_loaded_def ids_merge_all image_image)

lemma ids_empty: "ids [] = {}"
  by (simp add: ids_def)

lemma loaded_empty_categories:
  "ids (category_nodes (loaded pf src empty_graph)) = cat_id ` set (categories_df src)"
  by (simp add: loaded_category_nodes ids_merge_all image_image empty_graph_def ids_empty)

lemma loaded_empty_products:
  "ids (product_nodes (loaded pf src empty_graph)) = prod_id ` set (products_df src)"
  by (simp add: loaded_product_nodes ids_merge_all image_image empty_graph_def ids_empty)

lemma loaded_empty_in_category:
  assumes "\<forall>r\<in>set (products_df src). prod_category_id r \<in> cat_id ` set (categories_df src)"
  shows "in_category (loaded pf src empty_graph) =
     merge_rels (map (\<lambda>r. (prod_id r, prod_category_id r)) (products_df src)) []"
proof -
  have "filter (\<lambda>r. prod_category_id r \<in> cat_id ` set (categories_df src)) (products_df src)
          = products_df src"
    using assms by (simp add: filter_id_conv)
  then show ?thesis
    by (simp add: loaded_in_category empty_graph_def ids_empty)
qed

lemma single_edge:
  assumes single: "\<forall>e\<in>set es. \<forall>e'\<in>set es. fst e = fst e' \<longrightarrow> snd e = snd e'"
    and e: "(p, c) \<in> set es"
  shows "[c'. (p', c') \<leftarrow> merge_rels es [], p' = p] = [c]"
proof -
  have "filter (\<lambda>e. fst e = p) (merge_rels es []) = [(p, c)]"
  proof (rule filter_single)
    show "distinct (merge_rels es [])" by (simp add: distinct_merge_rels)
    show "(p, c) \<in> set (merge_rels es [])" using e by (simp add: set_merge_rels)
    show "\<forall>x\<in>set (merge_rels es []). fst x = p \<longleftrightarrow> x = (p, c)"
    proof
      fix x assume "x \<in> set (merge_rels es [])"
      then have x: "x \<in> set es" by (simp add: set_merge_rels)
      show "fst x = p \<longleftrightarrow> x = (p, c)"
      proof
        assume "fst x = p"
        then have "snd x = c" using single x e by fastforce
        then show "x = (p, c)" using \<open>fst x = p\<close> by (simp add: prod_eq_iff)
      next
        assume "x = (p, c)" then show "fst x = p" by simp
      qed
    qed
  qed
  then show ?thesis by (simp add: edges_from)
qed

lemma pair_in_map: "x \<in> set xs \<Longrightarrow> (f x, h x) \<in> set (map (\<lambda>x. (f x, h x)) xs)"
  by (induction xs) auto

lemma single_valued_map:
  assumes "\<forall>x\<in>set xs. \<forall>y\<in>set xs. f x = f y \<longrightarrow> h x = h y"
  shows "\<forall>e\<in>set (map (\<lambda>x. (f x, h x)) xs). \<forall>e'\<in>set (map (\<lambda>x. (f x, h x)) xs).
           fst e = fst e' \<longrightarrow> snd e = snd e'"
proof (intro ballI impI)
  fix e e'
  assume "e \<in> set (map (\<lambda>x. (f x, h x)) xs)" and "e' \<in> set (map (\<lambda>x. (f x, h x)) xs)"
    and eq: "fst e = fst e'"
  then obtain x y where x: "x \<in> set xs" "e = (f x, h x)" and y: "y \<in> set xs" "e' = (f y, h y)"
    by (auto simp: image_iff)
  have "f x = f y" using eq x(2) y(2) by simp
  then have "h x = h y" using assms x(1) y(1) by blast
  then show "snd e = snd e'" using x(2) y(2) by simp
qed

lemma in_merge_set_self: "(k, v) \<in> set (merge_set k v al)"
  by (simp add: in_merge_set)

lemma exactly_one_category:
  assumes run: "etl pf src empty_graph = (out, None, g')"
    and known: "\<forall>r\<in>set (products_df src). prod_category_id r \<in> cat_id ` set (categories_df src)"
    and single: "\<forall>r\<in>set (products_df src). \<forall>r'\<in>set (products_df src).
                   prod_id r = prod_id r' \<longrightarrow> prod_category_id r = prod_category_id r'"
    and node: "p \<in> ids (product_nodes g')"
  shows "\<exists>c. [c'. (p', c') \<leftarrow> in_category g', p' = p] = [c] \<and> c \<in> ids (category_nodes g')"
proof -
  let ?es = "map (\<lambda>r. (prod_id r, prod_category_id r)) (products_df src)"
  have "loadable pf src empty_graph \<and> out = printed src \<and> g' = loaded pf src empty_graph"
    using run by (rule iffD1 [OF etl_completes_iff])
  then have g': "g' = loaded pf src empty_graph"
    by (elim conjE)
  have "p \<in> prod_id ` set (products_df src)"
    using node unfolding g' loaded_empty_products .
  then obtain r where r: "r \<in> set (products_df src)" and p: "p = prod_id r"
    by blast
  have e: "(p, prod_category_id r) \<in> set ?es"
    unfolding p using r by (rule pair_in_map)
  have s: "\<forall>e\<in>set ?es. \<forall>e'\<in>set ?es. fst e = fst e' \<longrightarrow> snd e = snd e'"
    using single by (rule single_valued_map)
  have "[c'. (p', c') \<leftarrow> merge_rels ?es [], p' = p] = [prod_category_id r]"
    using s e by (rule single_edge)
  then have one: "[c'. (p', c') \<leftarrow> in_category g', p' = p] = [prod_category_id r]"
    unfolding g' loaded_empty_in_category [OF known] .
  have "prod_category_id r \<in> cat_id ` set (categories_df src)"
    using known r by (rule bspec)
  then have cat: "prod_category_id r \<in> ids (category_nodes g')"
    unfolding g' loaded_empty_categories .
  show ?thesis
    using one cat by (intro exI [of _ "prod_category_id r"] conjI)
qed























section \<open>The claims about the ETL run\<close>

text \<open>
  C1 as the specification states it says that a row whose merge fails is caught, logged
  and skipped, and that the other rows are still loaded. The run below has two orders;
  the first has the missing timestamp \<^verbatim>\<open>NaT\<close>. Its statement raises, the run ends
  with that exception after the line \<^verbatim>\<open>Loading Orders...\<close>, and the second order is not
  in the graph.
\<close>

theorem failing_row_ends_run_counterexample:
  "etl plain_platform \<lparr>categories_df = [],
       products_df = [],
       customers_df = [\<lparr>cust_id = ''U1'', cust_name = ''Ann'', cust_join_date = Date 1\<rparr>],
       orders_df = [\<lparr>ord_id = ''O1'', ord_customer_id = ''U1'', ord_ts = NaT\<rparr>, \<lparr>ord_id = ''O2'', ord_customer_id = ''U1'', ord_ts = Timestamp 5\<rparr>],
       order_items_df = [],
       events_df = []\<rparr>
     empty_graph
   = ([Extracting, RowCount Categories 0, RowCount Products 0,
       RowCount Customers 1, RowCount Orders 2, RowCount OrderItems 0,
       RowCount Events 0, LoadingData, Loading Categories, Loading Products,
       Loading Customers, Loading Orders],
      Some CypherArgumentError,
      \<lparr>category_nodes = [],
       product_nodes = [],
       customer_nodes = [(''U1'', ''Ann'', 1)],
       order_nodes = [],
       in_category = [],
       placed = [],
       contains = [],
       interactions = []\<rparr>)"
  by code_simp

text \<open>
  C1, amended. Nothing in the loader catches the exception of a row. When the rows
  before a row of customers, orders or events load and that row raises, the run ends
  with its exception: the graph is the one the rows before it left (the graph of the run
  on the source cut before that row), no later row and no later table is loaded, and
  \<^verbatim>\<open>ETL done !\<close> is not printed.
\<close>

theorem etl_stops_at_failing_row:
  "(customers_df src = cpre @ crow # cpost
      \<and> etl pf (src\<lparr>customers_df := cpre, orders_df := [], order_items_df := [], events_df := []\<rparr>) g
          = (out, None, g1)
      \<and> load_customer g1 crow = Inl e
    \<longrightarrow> fst (snd (etl pf src g)) = Some e \<and> snd (snd (etl pf src g)) = g1
        \<and> Done \<notin> set (fst (etl pf src g)))
   \<and> (orders_df src = opre @ orow # opost
      \<and> etl pf (src\<lparr>orders_df := opre, order_items_df := [], events_df := []\<rparr>) g = (out, None, g1)
      \<and> load_order g1 orow = Inl e
    \<longrightarrow> fst (snd (etl pf src g)) = Some e \<and> snd (snd (etl pf src g)) = g1
        \<and> Done \<notin> set (fst (etl pf src g)))
   \<and> (events_df src = epre @ erow # epost
      \<and> etl pf (src\<lparr>events_df := epre\<rparr>) g = (out, None, g1)
      \<and> load_event pf g1 erow = Inl e
    \<longrightarrow> fst (snd (etl pf src g)) = Some e \<and> snd (snd (etl pf src g)) = g1
        \<and> Done \<notin> set (fst (etl pf src g)))"
  using etl_customer_failure [of src cpre crow cpost pf g out g1 e]
    etl_order_failure [of src opre orow opost pf g out g1 e]
    etl_event_failure [of src epre erow epost pf g out g1 e]
  by blast

theorem etl_stops_at_failing_row_witness:
  "(fst (snd (etl plain_platform \<lparr>categories_df = [],
             products_df = [],
             customers_df = [\<lparr>cust_id = ''U1'', cust_name = ''Ann'', cust_join_date = Date 1\<rparr>, \<lparr>cust_id = ''U2'', cust_name = ''Bob'', cust_join_date = NoDate\<rparr>, \<lparr>cust_id = ''U3'', cust_name = ''Cy'', cust_join_date = Date 3\<rparr>],
             orders_df = [],
             order_items_df = [],
             events_df = []\<rparr> empty_graph)) = Some CypherArgumentError
     \<and> snd (snd (etl plain_platform \<lparr>categories_df = [],
             products_df = [],
             customers_df = [\<lparr>cust_id = ''U1'', cust_name = ''Ann'', cust_join_date = Date 1\<rparr>, \<lparr>cust_id = ''U2'', cust_name = ''Bob'', cust_join_date = NoDate\<rparr>, \<lparr>cust_id = ''U3'', cust_name = ''Cy'', cust_join_date = Date 3\<rparr>],
             orders_df = [],
             order_items_df = [],
             events_df = []\<rparr> empty_graph))
         = \<lparr>category_nodes = [],
             product_nodes = [],
             customer_nodes = [(''U1'', ''Ann'', 1)],
             order_nodes = [],
             in_category = [],
             placed = [],
             contains = [],
             interactions = []\<rparr>
     \<and> Done \<notin> set (fst (etl plain_platform \<lparr>categories_df = [],
             products_df = [],
             customers_df = [\<lparr>cust_id = ''U1'', cust_name = ''Ann'', cust_join_date = Date 1\<rparr>, \<lparr>cust_id = ''U2'', cust_name = ''Bob'', cust_join_date = NoDate\<rparr>, \<lparr>cust_id = ''U3'', cust_name = ''Cy'', cust_join_date = Date 3\<rparr>],
             orders_df = [],
             order_items_df = [],
             events_df = []\<rparr> empty_graph)))
   \<and> (fst (snd (etl plain_platform \<lparr>categories_df = [],
             products_df = [],
             customers_df = [\<lparr>cust_id = ''U1'', cust_name = ''Ann'', cust_join_date = Date 1\<rparr>],
             orders_df = [\<lparr>ord_id = ''O1'', ord_customer_id = ''U1'', ord_ts = Timestamp 4\<rparr>, \<lparr>ord_id = ''O2'', ord_customer_id = ''U1'', ord_ts = NaT\<rparr>, \<lparr>ord_id = ''O3'', ord_customer_id = ''U1'', ord_ts = Timestamp 6\<rparr>],
             order_items_df = [],
             events_df = []\<rparr> empty_graph)) = Some CypherArgumentError
     \<and> snd (snd (etl plain_platform \<lparr>categories_df = [],
             products_df = [],
             customers_df = [\<lparr>cust_id = ''U1'', cust_name = ''Ann'', cust_join_date = Date 1\<rparr>],
             orders_df = [\<lparr>ord_id = ''O1'', ord_customer_id = ''U1'', ord_ts = Timestamp 4\<rparr>, \<lparr>ord_id = ''O2'', ord_customer_id = ''U1'', ord_ts = NaT\<rparr>, \<lparr>ord_id = ''O3'', ord_customer_id = ''U1'', ord_ts = Timestamp 6\<rparr>],
             order_items_df = [],
             events_df = []\<rparr> empty_graph))
         = \<lparr>category_nodes = [],
             product_nodes = [],
             customer_nodes = [(''U1'', ''Ann'', 1)],
             order_nodes = [(''O1'', 4)],
             in_category = [],
             placed = [(''U1'', ''O1'')],
             contains = [],
             interactions = []\<rparr>
     \<and> Done \<notin> set (fst (etl plain_platform \<lparr>categories_df = [],
             products_df = [],
             customers_df = [\<lparr>cust_id = ''U1'', cust_name = ''Ann'', cust_join_date = Date 1\<rparr>],
             orders_df = [\<lparr>ord_id = ''O1'', ord_customer_id = ''U1'', ord_ts = Timestamp 4\<rparr>, \<lparr>ord_id = ''O2'', ord_customer_id = ''U1'', ord_ts = NaT\<rparr>, \<lparr>ord_id = ''O3'', ord_customer_id = ''U1'', ord_ts = Timestamp 6\<rparr>],
             order_items_df = [],
             events_df = []\<rparr> empty_graph)))
   \<and> (fst (snd (etl plain_platform \<lparr>categories_df = [],
             products_df = [\<lparr>prod_id = ''P1'', prod_name = ''Go Guide'', prod_price = 29.99, prod_category_id = ''C1''\<rparr>],
             customers_df = [\<lparr>cust_id = ''U1'', cust_name = ''Ann'', cust_join_date = Date 1\<rparr>],
             orders_df = [],
             order_items_df = [],
             events_df = [\<lparr>ev_customer_id = ''U1'', ev_product_id = ''P1'', ev_event_type = ''view'', ev_ts = Timestamp 7\<rparr>, \<lparr>ev_customer_id = ''U1'', ev_product_id = ''P1'', ev_event_type = ''click'', ev_ts = NotATimestamp\<rparr>, \<lparr>ev_customer_id = ''U1'', ev_product_id = ''P1'', ev_event_type = ''click'', ev_ts = Timestamp 9\<rparr>]\<rparr> empty_graph)) = Some AttributeError
     \<and> snd (snd (etl plain_platform \<lparr>categories_df = [],
             products_df = [\<lparr>prod_id = ''P1'', prod_name = ''Go Guide'', prod_price = 29.99, prod_category_id = ''C1''\<rparr>],
             customers_df = [\<lparr>cust_id = ''U1'', cust_name = ''Ann'', cust_join_date = Date 1\<rparr>],
             orders_df = [],
             order_items_df = [],
             events_df = [\<lparr>ev_customer_id = ''U1'', ev_product_id = ''P1'', ev_event_type = ''view'', ev_ts = Timestamp 7\<rparr>, \<lparr>ev_customer_id = ''U1'', ev_product_id = ''P1'', ev_event_type = ''click'', ev_ts = NotATimestamp\<rparr>, \<lparr>ev_customer_id = ''U1'', ev_product_id = ''P1'', ev_event_type = ''click'', ev_ts = Timestamp 9\<rparr>]\<rparr> empty_graph))
         = \<lparr>category_nodes = [],
             product_nodes = [(''P1'', ''Go Guide'', 29.99)],
             customer_nodes = [(''U1'', ''Ann'', 1)],
             order_nodes = [],
             in_category = [],
             placed = [],
             contains = [],
             interactions = [((''U1'', ''P1'', ''VIEW''), 7)]\<rparr>
     \<and> Done \<notin> set (fst (etl plain_platform \<lparr>categories_df = [],
             products_df = [\<lparr>prod_id = ''P1'', prod_name = ''Go Guide'', prod_price = 29.99, prod_category_id = ''C1''\<rparr>],
             customers_df = [\<lparr>cust_id = ''U1'', cust_name = ''Ann'', cust_join_date = Date 1\<rparr>],
             orders_df = [],
             order_items_df = [],
             events_df = [\<lparr>ev_customer_id = ''U1'', ev_product_id = ''P1'', ev_event_type = ''view'', ev_ts = Timestamp 7\<rparr>, \<lparr>ev_customer_id = ''U1'', ev_product_id = ''P1'', ev_event_type = ''click'', ev_ts = NotATimestamp\<rparr>, \<lparr>ev_customer_id = ''U1'', ev_product_id = ''P1'', ev_event_type = ''click'', ev_ts = Timestamp 9\<rparr>]\<rparr> empty_graph)))"
proof -
  let ?cs = "\<lparr>categories_df = [],
             products_df = [],
             customers_df = [\<lparr>cust_id = ''U1'', cust_name = ''Ann'', cust_join_date = Date 1\<rparr>, \<lparr>cust_id = ''U2'', cust_name = ''Bob'', cust_join_date = NoDate\<rparr>, \<lparr>cust_id = ''U3'', cust_name = ''Cy'', cust_join_date = Date 3\<rparr>],
             orders_df = [],
             order_items_df = [],
             events_df = []\<rparr>"
  let ?cg = "\<lparr>category_nodes = [],
             product_nodes = [],
             customer_nodes = [(''U1'', ''Ann'', 1)],
             order_nodes = [],
             in_category = [],
             placed = [],
             contains = [],
             interactions = []\<rparr>"
  let ?os = "\<lparr>categories_df = [],
             products_df = [],
             customers_df = [\<lparr>cust_id = ''U1'', cust_name = ''Ann'', cust_join_date = Date 1\<rparr>],
             orders_df = [\<lparr>ord_id = ''O1'', ord_customer_id = ''U1'', ord_ts = Timestamp 4\<rparr>, \<lparr>ord_id = ''O2'', ord_customer_id = ''U1'', ord_ts = NaT\<rparr>, \<lparr>ord_id = ''O3'', ord_customer_id = ''U1'', ord_ts = Timestamp 6\<rparr>],
             order_items_df = [],
             events_df = []\<rparr>"
  let ?og = "\<lparr>category_nodes = [],
             product_nodes = [],
             customer_nodes = [(''U1'', ''Ann'', 1)],
             order_nodes = [(''O1'', 4)],
             in_category = [],
             placed = [(''U1'', ''O1'')],
             contains = [],
             interactions = []\<rparr>"
  let ?es = "\<lparr>categories_df = [],
             products_df = [\<lparr>prod_id = ''P1'', prod_name = ''Go Guide'', prod_price = 29.99, prod_category_id = ''C1''\<rparr>],
             customers_df = [\<lparr>cust_id = ''U1'', cust_name = ''Ann'', cust_join_date = Date 1\<rparr>],
             orders_df = [],
             order_items_df = [],
             events_df = [\<lparr>ev_customer_id = ''U1'', ev_product_id = ''P1'', ev_event_type = ''view'', ev_ts = Timestamp 7\<rparr>, \<lparr>ev_customer_id = ''U1'', ev_product_id = ''P1'', ev_event_type = ''click'', ev_ts = NotATimestamp\<rparr>, \<lparr>ev_customer_id = ''U1'', ev_product_id = ''P1'', ev_event_type = ''click'', ev_ts = Timestamp 9\<rparr>]\<rparr>"
  let ?eg = "\<lparr>category_nodes = [],
             product_nodes = [(''P1'', ''Go Guide'', 29.99)],
             customer_nodes = [(''U1'', ''Ann'', 1)],
             order_nodes = [],
             in_category = [],
             placed = [],
             contains = [],
             interactions = [((''U1'', ''P1'', ''VIEW''), 7)]\<rparr>"
  have c: "customers_df ?cs = [\<lparr>cust_id = ''U1'', cust_name = ''Ann'', cust_join_date = Date 1\<rparr>] @ \<lparr>cust_id = ''U2'', cust_name = ''Bob'', cust_join_date = NoDate\<rparr> # [\<lparr>cust_id = ''U3'', cust_name = ''Cy'', cust_join_date = Date 3\<rparr>]
      \<and> etl plain_platform (?cs\<lparr>customers_df := [\<lparr>cust_id = ''U1'', cust_name = ''Ann'', cust_join_date = Date 1\<rparr>], orders_df := [], order_items_df := [], events_df := []\<rparr>)
            empty_graph
          = ([Extracting, RowCount Categories 0, RowCount Products 0,
             RowCount Customers 1, RowCount Orders 0, RowCount OrderItems 0,
             RowCount Events 0, LoadingData, Loading Categories, Loading Products,
             Loading Customers, Loading Orders, Loading OrderItems, Loading Events,
             Done], None, ?cg)
      \<and> load_customer ?cg \<lparr>cust_id = ''U2'', cust_name = ''Bob'', cust_join_date = NoDate\<rparr> = Inl CypherArgumentError"
    by code_simp
  have o: "orders_df ?os = [\<lparr>ord_id = ''O1'', ord_customer_id = ''U1'', ord_ts = Timestamp 4\<rparr>] @ \<lparr>ord_id = ''O2'', ord_customer_id = ''U1'', ord_ts = NaT\<rparr> # [\<lparr>ord_id = ''O3'', ord_customer_id = ''U1'', ord_ts = Timestamp 6\<rparr>]
      \<and> etl plain_platform (?os\<lparr>orders_df := [\<lparr>ord_id = ''O1'', ord_customer_id = ''U1'', ord_ts = Timestamp 4\<rparr>], order_items_df := [], events_df := []\<rparr>) empty_graph
          = ([Extracting, RowCount Categories 0, RowCount Products 0,
             RowCount Customers 1, RowCount Orders 1, RowCount OrderItems 0,
             RowCount Events 0, LoadingData, Loading Categories, Loading Products,
             Loading Customers, Loading Orders, Loading OrderItems, Loading Events,
             Done], None, ?og)
      \<and> load_order ?og \<lparr>ord_id = ''O2'', ord_customer_id = ''U1'', ord_ts = NaT\<rparr> = Inl CypherArgumentError"
    by code_simp
  have e: "events_df ?es = [\<lparr>ev_customer_id = ''U1'', ev_product_id = ''P1'', ev_event_type = ''view'', ev_ts = Timestamp 7\<rparr>] @ \<lparr>ev_customer_id = ''U1'', ev_product_id = ''P1'', ev_event_type = ''click'', ev_ts = NotATimestamp\<rparr> # [\<lparr>ev_customer_id = ''U1'', ev_product_id = ''P1'', ev_event_type = ''click'', ev_ts = Timestamp 9\<rparr>]
      \<and> etl plain_platform (?es\<lparr>events_df := [\<lparr>ev_customer_id = ''U1'', ev_product_id = ''P1'', ev_event_type = ''view'', ev_ts = Timestamp 7\<rparr>]\<rparr>) empty_graph
          = ([Extracting, RowCount Categories 0, RowCount Products 1,
             RowCount Customers 1, RowCount Orders 0, RowCount OrderItems 0,
             RowCount Events 1, LoadingData, Loading Categories, Loading Products,
             Loading Customers, Loading Orders, Loading OrderItems, Loading Events,
             Done], None, ?eg)
      \<and> load_event plain_platform ?eg \<lparr>ev_customer_id = ''U1'', ev_product_id = ''P1'', ev_event_type = ''click'', ev_ts = NotATimestamp\<rparr> = Inl AttributeError"
    by code_simp
  show ?thesis
    using etl_stops_at_failing_row [THEN conjunct1, rule_format, OF c]
      etl_stops_at_failing_row [THEN conjunct2, THEN conjunct1, rule_format, OF o]
      etl_stops_at_failing_row [THEN conjunct2, THEN conjunct2, rule_format, OF e]
    by (intro conjI) (elim conjE, assumption)+
qed



text \<open>
  C3 as the specification states it says that every product has exactly one
  \<^verbatim>\<open>IN_CATEGORY\<close> relationship after a load, also when its category is not there when
  its row is loaded. In the run below the product names category \<^verbatim>\<open>C1\<close>, which is not
  in the graph: the product node is created, the run completes, and the product has no
  \<^verbatim>\<open>IN_CATEGORY\<close> relationship.
\<close>

theorem product_without_category_counterexample:
  "etl plain_platform \<lparr>categories_df = [],
       products_df = [\<lparr>prod_id = ''P1'', prod_name = ''Go Guide'', prod_price = 29.99, prod_category_id = ''C1''\<rparr>],
       customers_df = [],
       orders_df = [],
       order_items_df = [],
       events_df = []\<rparr>
     empty_graph
   = ([Extracting, RowCount Categories 0, RowCount Products 1,
       RowCount Customers 0, RowCount Orders 0, RowCount OrderItems 0,
       RowCount Events 0, LoadingData, Loading Categories, Loading Products,
       Loading Customers, Loading Orders, Loading OrderItems, Loading Events,
       Done],
      None,
      \<lparr>category_nodes = [],
       product_nodes = [(''P1'', ''Go Guide'', 29.99)],
       customer_nodes = [],
       order_nodes = [],
       in_category = [],
       placed = [],
       contains = [],
       interactions = []\<rparr>)"
  by code_simp

text \<open>
  C3, amended. The product statement \<^verbatim>\<open>MATCH\<close>es the category, it does not merge it;
  what makes the relationship is that \<open>etl\<close> loads all categories before the products.
  After a completed run on the empty graph every product node has exactly one
  \<^verbatim>\<open>IN_CATEGORY\<close> relationship, to a category node, when every product row names a
  category of the categories table and no two product rows give one product two
  categories. A product row whose category is not in the graph merges the product node
  and nothing else.
\<close>

theorem one_category_after_load:
  "(etl pf src empty_graph = (out, None, g')
      \<and> (\<forall>r\<in>set (products_df src). prod_category_id r \<in> cat_id ` set (categories_df src))
      \<and> (\<forall>r\<in>set (products_df src). \<forall>r'\<in>set (products_df src).
             prod_id r = prod_id r' \<longrightarrow> prod_category_id r = prod_category_id r')
      \<and> p \<in> ids (product_nodes g')
    \<longrightarrow> (\<exists>c. [c'. (p', c') \<leftarrow> in_category g', p' = p] = [c] \<and> c \<in> ids (category_nodes g')))
   \<and> (prod_category_id row \<notin> ids (category_nodes g)
    \<longrightarrow> load_product g row
          = Inr (g\<lparr>product_nodes :=
                     merge_set (prod_id row) (prod_name row, prod_price row) (product_nodes g)\<rparr>))"
  using exactly_one_category [of pf src out g' p] load_product_without_category [of row g]
  by blast

theorem one_category_after_load_witness:
  "(\<exists>c. [c'. (p', c') \<leftarrow> in_category
                  \<lparr>category_nodes = [(''C1'', ''Books'')],
                   product_nodes = [(''P1'', ''Go Guide'', 29.99)],
                   customer_nodes = [],
                   order_nodes = [],
                   in_category = [(''P1'', ''C1'')],
                   placed = [],
                   contains = [],
                   interactions = []\<rparr>,
           p' = ''P1''] = [c]
       \<and> c \<in> ids (category_nodes
                  \<lparr>category_nodes = [(''C1'', ''Books'')],
                   product_nodes = [(''P1'', ''Go Guide'', 29.99)],
                   customer_nodes = [],
                   order_nodes = [],
                   in_category = [(''P1'', ''C1'')],
                   placed = [],
                   contains = [],
                   interactions = []\<rparr>))
   \<and> load_product empty_graph
        \<lparr>prod_id = ''P1'', prod_name = ''Go Guide'', prod_price = 29.99, prod_category_id = ''C1''\<rparr>
     = Inr (empty_graph\<lparr>product_nodes := merge_set ''P1'' (''Go Guide'', 29.99) []\<rparr>)"
proof -
  let ?s = "\<lparr>categories_df = [\<lparr>cat_id = ''C1'', cat_name = ''Books''\<rparr>],
             products_df = [\<lparr>prod_id = ''P1'', prod_name = ''Go Guide'', prod_price = 29.99, prod_category_id = ''C1''\<rparr>],
             customers_df = [],
             orders_df = [],
             order_items_df = [],
             events_df = []\<rparr>"
  let ?g = "\<lparr>category_nodes = [(''C1'', ''Books'')],
             product_nodes = [(''P1'', ''Go Guide'', 29.99)],
             customer_nodes = [],
             order_nodes = [],
             in_category = [(''P1'', ''C1'')],
             placed = [],
             contains = [],
             interactions = []\<rparr>"
  let ?row = "\<lparr>prod_id = ''P1'', prod_name = ''Go Guide'', prod_price = 29.99, prod_category_id = ''C1''\<rparr>"
  have run: "etl plain_platform ?s empty_graph
      = ([Extracting, RowCount Categories 1, RowCount Products 1,
         RowCount Customers 0, RowCount Orders 0, RowCount OrderItems 0,
         RowCount Events 0, LoadingData, Loading Categories, Loading Products,
         Loading Customers, Loading Orders, Loading OrderItems, Loading Events,
         Done], None, ?g)
    \<and> (\<forall>r\<in>set (products_df ?s). prod_category_id r \<in> cat_id ` set (categories_df ?s))
    \<and> (\<forall>r\<in>set (products_df ?s). \<forall>r'\<in>set (products_df ?s).
           prod_id r = prod_id r' \<longrightarrow> prod_category_id r = prod_category_id r')
    \<and> ''P1'' \<in> ids (product_nodes ?g)"
    by code_simp
  have absent: "prod_category_id ?row \<notin> ids (category_nodes empty_graph)"
    by code_simp
  have 1: "\<exists>c. [c'. (p', c') \<leftarrow> in_category ?g, p' = ''P1''] = [c] \<and> c \<in> ids (category_nodes ?g)"
    using one_category_after_load [THEN conjunct1, rule_format, OF run] .
  have 2: "load_product empty_graph ?row
      = Inr (empty_graph\<lparr>product_nodes := merge_set ''P1'' (''Go Guide'', 29.99) []\<rparr>)"
    using one_category_after_load [THEN conjunct2, rule_format, OF absent]
    by (simp add: empty_graph_def)
  show ?thesis using 1 2 by (rule conjI)
qed

text \<open>
  C4 as the specification states it says that the relationship type of an interaction
  comes from a fixed list of known event types and that an event of another type is
  rejected or logged. The loader has no such list. Below, an event of type
  \<^verbatim>\<open>wishlist\<close>, which is none of the three types the loader's comment names, is merged
  as a relationship of type \<^verbatim>\<open>WISHLIST\<close>.
\<close>

theorem unlisted_event_type_counterexample:
  "upper plain_platform ''wishlist'' \<notin> set known_event_types
   \<and> load_event plain_platform
        \<lparr>category_nodes = [],
           product_nodes = [(''P1'', ''Go Guide'', 29.99)],
           customer_nodes = [(''U1'', ''Ann'', 1)],
           order_nodes = [],
           in_category = [],
           placed = [],
           contains = [],
           interactions = []\<rparr>
        \<lparr>ev_customer_id = ''U1'', ev_product_id = ''P1'', ev_event_type = ''wishlist'', ev_ts = Timestamp 5\<rparr>
     = Inr \<lparr>category_nodes = [],
             product_nodes = [(''P1'', ''Go Guide'', 29.99)],
             customer_nodes = [(''U1'', ''Ann'', 1)],
             order_nodes = [],
             in_category = [],
             placed = [],
             contains = [],
             interactions = [((''U1'', ''P1'', ''WISHLIST''), 5)]\<rparr>"
  by code_simp

text \<open>
  C4, amended. For an event row whose customer and product are in the graph and whose
  timestamp converts, the relationship merged between them has the row's event type in
  upper case as its type, for every event type that reads as a relationship type; no
  list of allowed types is consulted.
\<close>

theorem event_type_becomes_relationship_type:
  assumes "ev_customer_id row \<in> ids (customer_nodes g)"
    and "ev_product_id row \<in> ids (product_nodes g)"
    and "ev_ts row = Timestamp t"
    and "plain_name (upper pf (ev_event_type row))"
  shows "\<exists>g'. load_event pf g row = Inr g' \<and>
     ((ev_customer_id row, ev_product_id row, upper pf (ev_event_type row)), t) \<in> set (interactions g')"
  using assms by (simp add: load_event_def read_type_def in_merge_set_self)

theorem event_type_becomes_relationship_type_witness:
  "\<exists>g'. load_event plain_platform
          \<lparr>category_nodes = [],
             product_nodes = [(''P1'', ''Go Guide'', 29.99)],
             customer_nodes = [(''U1'', ''Ann'', 1)],
             order_nodes = [],
             in_category = [],
             placed = [],
             contains = [],
             interactions = []\<rparr>
          \<lparr>ev_customer_id = ''U1'', ev_product_id = ''P1'', ev_event_type = ''wishlist'', ev_ts = Timestamp 5\<rparr> = Inr g'
      \<and> ((''U1'', ''P1'', ''WISHLIST''), 5) \<in> set (interactions g')"
proof -
  let ?g = "\<lparr>category_nodes = [],
             product_nodes = [(''P1'', ''Go Guide'', 29.99)],
             customer_nodes = [(''U1'', ''Ann'', 1)],
             order_nodes = [],
             in_category = [],
             placed = [],
             contains = [],
             interactions = []\<rparr>"
  let ?row = "\<lparr>ev_customer_id = ''U1'', ev_product_id = ''P1'', ev_event_type = ''wishlist'', ev_ts = Timestamp 5\<rparr>"
  have c: "ev_customer_id ?row \<in> ids (customer_nodes ?g)" by code_simp
  have p: "ev_product_id ?row \<in> ids (product_nodes ?g)" by code_simp
  have t: "ev_ts ?row = Timestamp 5" by code_simp
  have n: "plain_name (upper plain_platform (ev_event_type ?row))" by code_simp
  have u: "upper plain_platform (ev_event_type ?row) = ''WISHLIST''" by code_simp
  show ?thesis
    using event_type_becomes_relationship_type [OF c p t n] unfolding u by simp
qed

text \<open>
  C5 as the specification states it says that an event whose customer or product is not
  in the graph fails for that row and that the failure is reported for the row. In the
  run below the first event names customer \<^verbatim>\<open>U9\<close>, who is not in the graph. The run
  raises nothing and prints the lines of every run, none about that row; the row has
  left no relationship.
\<close>

theorem missing_endpoint_not_reported_counterexample:
  "etl plain_platform \<lparr>categories_df = [],
       products_df = [\<lparr>prod_id = ''P1'', prod_name = ''Go Guide'', prod_price = 29.99, prod_category_id = ''C1''\<rparr>],
       customers_df = [\<lparr>cust_id = ''U1'', cust_name = ''Ann'', cust_join_date = Date 1\<rparr>],
       orders_df = [],
       order_items_df = [],
       events_df = [\<lparr>ev_customer_id = ''U9'', ev_product_id = ''P1'', ev_event_type = ''view'', ev_ts = Timestamp 7\<rparr>,
           \<lparr>ev_customer_id = ''U1'', ev_product_id = ''P1'', ev_event_type = ''click'', ev_ts = Timestamp 9\<rparr>]\<rparr>
     empty_graph
   = ([Extracting, RowCount Categories 0, RowCount Products 1,
       RowCount Customers 1, RowCount Orders 0, RowCount OrderItems 0,
       RowCount Events 2, LoadingData, Loading Categories, Loading Products,
       Loading Customers, Loading Orders, Loading OrderItems, Loading Events,
       Done],
      None,
      \<lparr>category_nodes = [],
       product_nodes = [(''P1'', ''Go Guide'', 29.99)],
       customer_nodes = [(''U1'', ''Ann'', 1)],
       order_nodes = [],
       in_category = [],
       placed = [],
       contains = [],
       interactions = [((''U1'', ''P1'', ''CLICK''), 9)]\<rparr>)"
  by code_simp

text \<open>
  C5, amended. For an event row whose customer or product is not in the graph (its cell
  has an \<^verbatim>\<open>isoformat\<close> and its type reads as a relationship type), the two
  \<^verbatim>\<open>MATCH\<close>es yield nothing: the statement raises nothing and leaves the graph as it
  was, and the loop goes on with the next row as if the row had not been there. Nothing
  is reported for the row.
\<close>

theorem missing_endpoint_is_skipped_silently:
  assumes "ev_customer_id row \<notin> ids (customer_nodes g) \<or> ev_product_id row \<notin> ids (product_nodes g)"
    and "ev_ts row \<noteq> NotATimestamp"
    and "plain_name (upper pf (ev_event_type row))"
  shows "load_event pf g row = Inr g \<and>
         for_each_row (load_event pf) (row # rest) g = for_each_row (load_event pf) rest g"
  using assms by (cases "ev_ts row") (auto simp: load_event_def read_type_def)

theorem missing_endpoint_is_skipped_silently_witness:
  "load_event plain_platform
     \<lparr>category_nodes = [],
       product_nodes = [(''P1'', ''Go Guide'', 29.99)],
       customer_nodes = [(''U1'', ''Ann'', 1)],
       order_nodes = [],
       in_category = [],
       placed = [],
       contains = [],
       interactions = []\<rparr>
     \<lparr>ev_customer_id = ''U9'', ev_product_id = ''P1'', ev_event_type = ''view'', ev_ts = Timestamp 7\<rparr>
   = Inr \<lparr>category_nodes = [],
           product_nodes = [(''P1'', ''Go Guide'', 29.99)],
           customer_nodes = [(''U1'', ''Ann'', 1)],
           order_nodes = [],
           in_category = [],
           placed = [],
           contains = [],
           interactions = []\<rparr>
   \<and> for_each_row (load_event plain_platform)
        [\<lparr>ev_customer_id = ''U9'', ev_product_id = ''P1'', ev_event_type = ''view'', ev_ts = Timestamp 7\<rparr>,
         \<lparr>ev_customer_id = ''U1'', ev_product_id = ''P1'', ev_event_type = ''click'', ev_ts = Timestamp 9\<rparr>]
        \<lparr>category_nodes = [],
          product_nodes = [(''P1'', ''Go Guide'', 29.99)],
          customer_nodes = [(''U1'', ''Ann'', 1)],
          order_nodes = [],
          in_category = [],
          placed = [],
          contains = [],
          interactions = []\<rparr>
     = for_each_row (load_event plain_platform)
        [\<lparr>ev_customer_id = ''U1'', ev_product_id = ''P1'', ev_event_type = ''click'', ev_ts = Timestamp 9\<rparr>]
        \<lparr>category_nodes = [],
          product_nodes = [(''P1'', ''Go Guide'', 29.99)],
          customer_nodes = [(''U1'', ''Ann'', 1)],
          order_nodes = [],
          in_category = [],
          placed = [],
          contains = [],
          interactions = []\<rparr>"
proof -
  let ?g = "\<lparr>category_nodes = [],
             product_nodes = [(''P1'', ''Go Guide'', 29.99)],
             customer_nodes = [(''U1'', ''Ann'', 1)],
             order_nodes = [],
             in_category = [],
             placed = [],
             contains = [],
             interactions = []\<rparr>"
  let ?row = "\<lparr>ev_customer_id = ''U9'', ev_product_id = ''P1'', ev_event_type = ''view'', ev_ts = Timestamp 7\<rparr>"
  have a: "ev_customer_id ?row \<notin> ids (customer_nodes ?g) \<or> ev_product_id ?row \<notin> ids (product_nodes ?g)"
    by code_simp
  have t: "ev_ts ?row \<noteq> NotATimestamp" by code_simp
  have n: "plain_name (upper plain_platform (ev_event_type ?row))" by code_simp
  show ?thesis
    using missing_endpoint_is_skipped_silently [OF a t n] .
qed

section \<open>Facts about the recommendation queries\<close>

lemma set_order_desc: "set (order_desc rows) = set rows"
  by (simp add: order_desc_def)

lemma distinct_order_desc: "distinct (order_desc rows) = distinct rows"
  by (simp add: order_desc_def)

lemma sorted_order_desc: "sorted_wrt (\<lambda>a b. snd b \<le> snd a) (order_desc rows)"
proof -
  have "sorted (map (\<lambda>(x, n). - n) (order_desc rows :: ('a \<times> int) list))"
    unfolding order_desc_def by (rule sorted_sort_key)
  then have "sorted_wrt (\<lambda>a b. (case a of (x, n) \<Rightarrow> - n) \<le> (case b of (x, n) \<Rightarrow> - n)) (order_desc rows)"
    by (simp add: sorted_map)
  then show ?thesis
    by (rule sorted_wrt_mono_rel [rotated]) (simp add: case_prod_beta)
qed

lemma set_take_top: "set (take_top n rows) \<subseteq> set rows"
  using set_take_subset [of n "order_desc rows"] by (simp add: take_top_def set_order_desc)

lemma length_take_top: "length (take_top n rows) \<le> n"
  by (simp add: take_top_def)

lemma sorted_take_top: "sorted_wrt (\<lambda>a b. snd b \<le> snd a) (take_top n rows)"
  unfolding take_top_def using sorted_order_desc by (rule sorted_wrt_take)

lemma take_top_beats_rest:
  assumes a: "a \<in> set (take_top n rows)" and b: "b \<in> set rows" and nb: "b \<notin> set (take_top n rows)"
  shows "snd b \<le> snd a"
proof -
  let ?ys = "order_desc rows"
  have "b \<in> set (take n ?ys @ drop n ?ys)" using b by (simp add: set_order_desc)
  then have b': "b \<in> set (drop n ?ys)" using nb by (simp add: take_top_def del: append_take_drop_id)
  have "sorted_wrt (\<lambda>a b. snd b \<le> snd a) (take n ?ys @ drop n ?ys)"
    using sorted_order_desc [of rows] by simp
  then have "\<forall>x\<in>set (take n ?ys). \<forall>y\<in>set (drop n ?ys). snd y \<le> snd x"
    unfolding sorted_wrt_append by blast
  then show ?thesis using a b' by (simp add: take_top_def)
qed

lemma set_with_category:
  "set (with_category g rows) =
     {\<lparr>product_id = p, product_name = name, price = pr, category = cname, score = s\<rparr>
        | p s name pr c cname.
          (p, s) \<in> set rows \<and> (p, name, pr) \<in> set (product_nodes g)
          \<and> (p, c) \<in> set (in_category g) \<and> (c, cname) \<in> set (category_nodes g)}"
  unfolding with_category_def by (simp add: set_eq_iff) blast

lemma in_with_category:
  "r \<in> set (with_category g rows) \<longleftrightarrow>
     (product_id r, score r) \<in> set rows
     \<and> (product_id r, product_name r, price r) \<in> set (product_nodes g)
     \<and> (\<exists>c. (product_id r, c) \<in> set (in_category g) \<and> (c, category r) \<in> set (category_nodes g))"
  (is "?L \<longleftrightarrow> ?R")
proof
  assume ?L then show ?R unfolding set_with_category by auto
next
  assume R: ?R
  then obtain c where c: "(product_id r, c) \<in> set (in_category g)" "(c, category r) \<in> set (category_nodes g)"
    by blast
  have r: "r = \<lparr>product_id = product_id r, product_name = product_name r, price = price r,
             category = category r, score = score r\<rparr>"
    by simp
  show ?L
    unfolding set_with_category
    apply (rule CollectI)
    apply (rule exI [of _ "product_id r"], rule exI [of _ "score r"], rule exI [of _ "product_name r"],
           rule exI [of _ "price r"], rule exI [of _ c], rule exI [of _ "category r"])
    using R c r apply blast
    done
qed

lemma with_category_Nil: "with_category g [] = []"
  by (simp add: with_category_def)

lemma with_category_Cons:
  "with_category g (row # rows) = with_category g [row] @ with_category g rows"
  by (simp add: with_category_def)

lemma score_with_category: "r \<in> set (with_category g rows) \<Longrightarrow> score r \<in> snd ` set rows"
  by (force simp: in_with_category)

lemma sorted_with_category:
  "sorted_wrt (\<lambda>a b. snd b \<le> snd a) rows \<Longrightarrow>
   sorted_wrt (\<lambda>a b. score b \<le> score a) (with_category g rows)"
proof (induction rows)
  case Nil
  then show ?case by (simp add: with_category_Nil)
next
  case (Cons row rows)
  have one: "sorted_wrt (\<lambda>a b. score b \<le> score a) (with_category g [row])"
  proof -
    have "\<forall>r\<in>set (with_category g [row]). score r = snd row"
      using score_with_category [of _ g "[row]"] by auto
    then show ?thesis
      by (simp add: sorted_wrt_iff_nth_less)
  qed
  have rest: "sorted_wrt (\<lambda>a b. score b \<le> score a) (with_category g rows)"
    using Cons by simp
  have "\<forall>a\<in>set (with_category g [row]). \<forall>b\<in>set (with_category g rows). score b \<le> score a"
  proof (intro ballI)
    fix a b assume "a \<in> set (with_category g [row])" "b \<in> set (with_category g rows)"
    then have "score a = snd row" "score b \<in> snd ` set rows"
      using score_with_category [of a g "[row]"] score_with_category [of b g rows] by auto
    then show "score b \<le> score a" using Cons.prems by auto
  qed
  then show ?case
    using one rest by (simp add: with_category_Cons [of g row rows] sorted_wrt_append)
qed

lemma products_with_category: "product_id ` set (with_category g rows) \<subseteq> fst ` set rows"
  by (force simp: in_with_category)

lemma card_products_take_top:
  "card (product_id ` set (with_category g (take_top n rows))) \<le> n"
proof -
  have "card (product_id ` set (with_category g (take_top n rows))) \<le> card (fst ` set (take_top n rows))"
    by (rule card_mono) (simp_all add: products_with_category)
  also have "\<dots> \<le> card (set (take_top n rows))" by (rule card_image_le) simp
  also have "\<dots> \<le> length (take_top n rows)" by (rule card_length)
  also have "\<dots> \<le> n" by (rule length_take_top)
  finally show ?thesis .
qed

lemma in_table: "(k, v) \<in> set (map (\<lambda>k. (k, f k)) (remdups ks)) \<longleftrightarrow> k \<in> set ks \<and> v = f k"
  by auto

lemma in_ids: "k \<in> ids al \<longleftrightarrow> (\<exists>v. (k, v) \<in> set al)"
  by (force simp: ids_def)

lemma set_sold:
  "set (sold g) =
     {(p, q). \<exists>od. ((od, p), q) \<in> set (contains g) \<and> od \<in> ids (order_nodes g)
                \<and> p \<in> ids (product_nodes g)}"
  unfolding sold_def by (simp add: set_eq_iff) blast

lemma sold_of_product:
  "p \<in> ps \<Longrightarrow>
   [q. (p', q) \<leftarrow> [(p, q). ((od, p), q) \<leftarrow> es, od \<in> os \<and> p \<in> ps], p' = p]
     = [q. ((od, p'), q) \<leftarrow> es, p' = p \<and> od \<in> os]"
  by (induction es) (auto split: prod.splits)

lemma total_sold_eq:
  "(p, n) \<in> set (total_sold g) \<longleftrightarrow> p \<in> fst ` set (sold g) \<and> n = quantity_sold g p"
proof -
  have "sum_list [q. (p', q) \<leftarrow> sold g, p' = p] = quantity_sold g p" if "p \<in> fst ` set (sold g)"
  proof -
    from that have "p \<in> ids (product_nodes g)" by (auto simp: set_sold)
    then show ?thesis
      unfolding sold_def quantity_sold_def by (simp only: sold_of_product)
  qed
  note eq = this
  have "(p, n) \<in> set (total_sold g) \<longleftrightarrow>
      p \<in> set (map fst (sold g)) \<and> n = sum_list [q. (p', q) \<leftarrow> sold g, p' = p]"
    unfolding total_sold_def by (rule in_table)
  also have "\<dots> \<longleftrightarrow> p \<in> fst ` set (sold g) \<and> n = quantity_sold g p"
  proof (cases "p \<in> fst ` set (sold g)")
    case True
    then show ?thesis using eq by simp
  next
    case False
    then show ?thesis by simp
  qed
  finally show ?thesis .
qed

lemma popular_products_rows:
  assumes "0 \<le> limit"
  shows "popular_products g limit = Inr (with_category g (take_top (nat limit) (total_sold g)))"
  using assms by (simp add: popular_products_def)

lemma popular_score:
  assumes "r \<in> set (with_category g (take_top n (total_sold g)))"
  shows "score r = quantity_sold g (product_id r)"
proof -
  have "(product_id r, score r) \<in> set (take_top n (total_sold g))"
    using assms by (simp add: in_with_category)
  then have "(product_id r, score r) \<in> set (total_sold g)"
    using set_take_top by blast
  then show ?thesis by (simp add: total_sold_eq)
qed

lemma ranked_unless_outranked:
  assumes r: "r \<in> set (with_category g (take_top n table))"
    and p: "(p, v) \<in> set table"
    and node: "p \<in> ids (product_nodes g)"
    and rel: "(p, c) \<in> set (in_category g)" and cat: "c \<in> ids (category_nodes g)"
    and out: "p \<notin> product_id ` set (with_category g (take_top n table))"
  shows "v \<le> score r"
proof -
  have "(p, v) \<notin> set (take_top n table)"
  proof
    assume take_top: "(p, v) \<in> set (take_top n table)"
    obtain name pr where "(p, name, pr) \<in> set (product_nodes g)"
      using node by (auto simp: in_ids)
    moreover obtain cname where "(c, cname) \<in> set (category_nodes g)"
      using cat by (auto simp: in_ids)
    ultimately have
      "\<lparr>product_id = p, product_name = name, price = pr, category = cname, score = v\<rparr>
         \<in> set (with_category g (take_top n table))"
      using take_top rel by (auto simp: in_with_category)
    then have "p \<in> product_id ` set (with_category g (take_top n table))"
      by force
    then show False using out by contradiction
  qed
  moreover have "(product_id r, score r) \<in> set (take_top n table)"
    using r by (simp add: in_with_category)
  ultimately show ?thesis
    using take_top_beats_rest [of "(product_id r, score r)" n table "(p, v)"] p by simp
qed

lemma popular_ignores_customers:
  "popular_products (g\<lparr>customer_nodes := cs, placed := pl, interactions := ia\<rparr>) limit
     = popular_products g limit"
  by (simp add: popular_products_def total_sold_def sold_def with_category_def cong: if_cong)

lemma not_ranked_limit_reached:
  assumes "x \<in> set table" and "x \<notin> set (take_top n table)"
  shows "n < length table"
proof (rule ccontr)
  assume "\<not> n < length table"
  then have "take_top n table = order_desc table"
    by (simp add: take_top_def order_desc_def)
  then show False using assms by (simp add: set_order_desc)
qed

lemma ranked_or_limit_reached:
  assumes p: "(p, v) \<in> set table"
    and node: "p \<in> ids (product_nodes g)"
    and rel: "(p, c) \<in> set (in_category g)" and cat: "c \<in> ids (category_nodes g)"
    and out: "p \<notin> product_id ` set (with_category g (take_top n table))"
  shows "n < length table"
proof -
  have "(p, v) \<notin> set (take_top n table)"
  proof
    assume top: "(p, v) \<in> set (take_top n table)"
    obtain name pr where "(p, name, pr) \<in> set (product_nodes g)"
      using node by (auto simp: in_ids)
    moreover obtain cname where "(c, cname) \<in> set (category_nodes g)"
      using cat by (auto simp: in_ids)
    ultimately have
      "\<lparr>product_id = p, product_name = name, price = pr, category = cname, score = v\<rparr>
         \<in> set (with_category g (take_top n table))"
      using top rel by (auto simp: in_with_category)
    then have "p \<in> product_id ` set (with_category g (take_top n table))"
      by force
    then show False using out by contradiction
  qed
  with p show ?thesis by (rule not_ranked_limit_reached)
qed

lemma set_bought_with:
  "set (bought_with g x) =
     {(od, rec). (od, x) \<in> ids (contains g) \<and> x \<in> ids (product_nodes g)
        \<and> od \<in> ids (order_nodes g) \<and> (od, rec) \<in> ids (contains g)
        \<and> rec \<in> ids (product_nodes g) \<and> rec \<noteq> x}"
  unfolding bought_with_def by (auto simp: in_ids) blast+

lemma keys_where: "[k. (k, v) \<leftarrow> al, P k] = map fst (filter (\<lambda>(k, v). P k) al)"
  by (induction al) (auto split: prod.splits)

lemma set_orders_with_both:
  "set (orders_with_both g x p) =
     {od. od \<in> ids (order_nodes g) \<and> (od, x) \<in> ids (contains g) \<and> (od, p) \<in> ids (contains g)}"
  unfolding orders_with_both_def keys_where by (auto simp: ids_def) force+

lemma distinct_orders_with_both: "distinct (orders_with_both g x p)"
  by (simp add: orders_with_both_def)

lemma length_remdups_eq:
  "set xs = set ys \<Longrightarrow> distinct ys \<Longrightarrow> length (remdups xs) = length ys"
  by (metis distinct_card length_remdups_card_conv)

lemma co_occurrences_eq:
  "(rec, v) \<in> set (co_occurrences g x) \<longleftrightarrow>
     rec \<in> snd ` set (bought_with g x) \<and> v = int (length (orders_with_both g x rec))"
proof -
  let ?f = "\<lambda>rec. int (length (remdups [od. (od, rec') \<leftarrow> bought_with g x, rec' = rec]))"
  have eq: "?f rec = int (length (orders_with_both g x rec))" if "rec \<in> snd ` set (bought_with g x)"
  proof -
    have "set [od. (od, rec') \<leftarrow> bought_with g x, rec' = rec] = {od. (od, rec) \<in> set (bought_with g x)}"
      by (simp add: set_eq_iff)
    also have "\<dots> = set (orders_with_both g x rec)"
      using that unfolding set_bought_with set_orders_with_both by auto
    finally show ?thesis
      using distinct_orders_with_both by (simp add: length_remdups_eq)
  qed
  have "(rec, v) \<in> set (co_occurrences g x) \<longleftrightarrow> rec \<in> set (map snd (bought_with g x)) \<and> v = ?f rec"
    unfolding co_occurrences_def by (rule in_table)
  also have "\<dots> \<longleftrightarrow> rec \<in> snd ` set (bought_with g x) \<and> v = int (length (orders_with_both g x rec))"
  proof (cases "rec \<in> snd ` set (bought_with g x)")
    case True
    then show ?thesis using eq by simp
  next
    case False
    then show ?thesis by simp
  qed
  finally show ?thesis .
qed

lemma co_occurrences_positive:
  assumes "rec \<in> snd ` set (bought_with g x)"
  shows "1 \<le> int (length (orders_with_both g x rec))"
proof -
  obtain od where "(od, rec) \<in> set (bought_with g x)" using assms by auto
  then have "od \<in> set (orders_with_both g x rec)"
    unfolding set_bought_with set_orders_with_both by simp
  then have "orders_with_both g x rec \<noteq> []" by auto
  then show ?thesis by (cases "orders_with_both g x rec") simp_all
qed

lemma co_occurring_in_table:
  assumes "x \<in> ids (product_nodes g)" "p \<in> ids (product_nodes g)" "p \<noteq> x"
    and "od \<in> set (orders_with_both g x p)"
  shows "(p, int (length (orders_with_both g x p))) \<in> set (co_occurrences g x)"
proof -
  have "(od, p) \<in> set (bought_with g x)"
    using assms unfolding set_bought_with set_orders_with_both by simp
  then have "p \<in> snd ` set (bought_with g x)" by force
  then show ?thesis by (simp add: co_occurrences_eq)
qed

lemma set_purchase_paths:
  "set (purchase_paths g) =
     {(c, od, p). (c, od) \<in> set (placed g) \<and> c \<in> ids (customer_nodes g)
        \<and> od \<in> ids (order_nodes g) \<and> (od, p) \<in> ids (contains g)
        \<and> p \<in> ids (product_nodes g)}"
  unfolding purchase_paths_def by (auto simp: in_ids) blast+

lemma paths_of: "[p. (c, od, p) \<leftarrow> xs, c = k] = map (\<lambda>(c, od, p). p) (filter (\<lambda>(c, od, p). c = k) xs)"
  by (induction xs) (auto split: prod.splits)

lemma set_customer_products:
  "set (customer_products g c) = {p. \<exists>od. (c, od, p) \<in> set (purchase_paths g)}"
  unfolding customer_products_def paths_of by force








lemma categorisedI:
  "(p, c) \<in> set (in_category g) \<Longrightarrow> (c, cname) \<in> set (category_nodes g) \<Longrightarrow> categorised g p cname"
  unfolding categorised_def by force

lemma with_category_categorised:
  "r \<in> set (with_category g rows) \<Longrightarrow> categorised g (product_id r) (category r)"
  by (auto simp: in_with_category intro: categorisedI)

lemma set_list_products:
  "set (list_products g) =
     {\<lparr>product_id = p, product_name = name, price = pr, category = cname\<rparr>
        | p name pr c cname.
          (p, c) \<in> set (in_category g) \<and> (p, name, pr) \<in> set (product_nodes g)
          \<and> (c, cname) \<in> set (category_nodes g)}"
  unfolding list_products_def by (simp add: set_eq_iff) blast

lemma list_products_categorised:
  "r \<in> set (list_products g) \<Longrightarrow> categorised g (product_id r) (category r)"
  unfolding set_list_products by (auto intro: categorisedI)

lemma set_category_matches: "set (category_matches g c) \<subseteq> set (in_category g)"
  unfolding category_matches_def by auto

lemma relevance_matches: "(m, n) \<in> set (relevance g c) \<Longrightarrow> m \<in> set (category_matches g c)"
  unfolding relevance_def by auto

lemma content_based_categorised:
  assumes "content_based g c limit = Inr rows" and "r \<in> set rows"
  shows "categorised g (product_id r) (category r)"
proof -
  let ?top = "take_top (nat limit) (relevance g c)"
  have "rows = [] \<or> rows =
      [\<lparr>product_id = rec, product_name = name, price = pr, category = cname\<rparr>.
         ((rec, cat), n) \<leftarrow> ?top, (p, name, pr) \<leftarrow> product_nodes g, p = rec,
         (c, cname) \<leftarrow> category_nodes g, c = cat]"
    using assms(1) by (auto simp: content_based_def split: if_splits)
  then obtain rec cat n where top: "((rec, cat), n) \<in> set ?top"
    and r: "product_id r = rec" "(cat, category r) \<in> set (category_nodes g)"
    using assms(2) by auto
  have "((rec, cat), n) \<in> set (relevance g c)" using top set_take_top by blast
  then have "(rec, cat) \<in> set (in_category g)"
    using relevance_matches set_category_matches by blast
  then show ?thesis using r by (auto intro: categorisedI)
qed

lemma shared_of:
  "[other. (other, od, p) \<leftarrow> xs, other \<noteq> c \<and> p \<in> S]
     = map fst (filter (\<lambda>(other, od, p). other \<noteq> c \<and> p \<in> S) xs)"
  by (induction xs) (auto split: prod.splits)

lemma shared_paths_filter:
  "shared_paths g c =
     map fst (filter (\<lambda>(other, od, p). other \<noteq> c \<and> p \<in> set (customer_products g c))
       (purchase_paths g))"
  unfolding shared_paths_def by (rule shared_of)

lemma count_shared:
  "m \<noteq> c \<Longrightarrow>
   int (count_list [other. (other, od, p) \<leftarrow> xs, other \<noteq> c \<and> p \<in> S] m)
     = int (length [p \<leftarrow> [p. (c', od, p) \<leftarrow> xs, c' = m]. p \<in> S])"
  by (induction xs) (auto split: prod.splits)

lemma count_shared_paths:
  "m \<noteq> c \<Longrightarrow> int (count_list (shared_paths g c) m) = overlap g c m"
  unfolding shared_paths_def overlap_def customer_products_def
  by (rule count_shared)

lemma in_shared_paths:
  "m \<in> set (shared_paths g c) \<longleftrightarrow> m \<noteq> c \<and> 1 \<le> overlap g c m"
proof (cases "m = c")
  case True
  then show ?thesis by (auto simp: shared_paths_filter)
next
  case False
  have "m \<in> set (shared_paths g c) \<longleftrightarrow> 0 < count_list (shared_paths g c) m"
    by (simp add: count_list_0_iff zero_less_iff_neq_zero)
  then show ?thesis using False count_shared_paths [OF False, of g] by auto
qed

lemma common_products_eq:
  "(m, v) \<in> set (common_products g c) \<longleftrightarrow> m \<noteq> c \<and> 1 \<le> overlap g c m \<and> v = overlap g c m"
proof -
  have "(m, v) \<in> set (common_products g c) \<longleftrightarrow>
      m \<in> set (shared_paths g c) \<and> v = int (count_list (shared_paths g c) m)"
    unfolding common_products_def by (rule in_table)
  then show ?thesis
    using count_shared_paths [of m c g] by (auto simp: in_shared_paths)
qed

lemma distinct_keys_order_desc:
  "distinct (map fst rows) \<Longrightarrow> distinct (map fst (order_desc rows))"
  by (simp add: distinct_map set_order_desc distinct_order_desc)

lemma distinct_keys_take_top:
  "distinct (map fst rows) \<Longrightarrow> distinct (map fst (take_top n rows))"
  unfolding take_top_def take_map [symmetric]
  by (rule distinct_take) (rule distinct_keys_order_desc)


lemma length_neighbours: "length (neighbours g c) \<le> 10"
  by (simp add: neighbours_def length_take_top)

lemma neighbour_ranked:
  assumes "n \<in> set (neighbours g c)"
  shows "(n, overlap g c n) \<in> set (take_top 10 (common_products g c))"
proof -
  obtain v where v: "(n, v) \<in> set (take_top 10 (common_products g c))"
    using assms by (auto simp: neighbours_def)
  then have "(n, v) \<in> set (common_products g c)" using set_take_top by blast
  then have "v = overlap g c n" by (simp add: common_products_eq)
  with v show ?thesis by simp
qed

lemma neighbour_overlap:
  assumes "n \<in> set (neighbours g c)"
  shows "n \<noteq> c \<and> 1 \<le> overlap g c n"
proof -
  have "(n, overlap g c n) \<in> set (common_products g c)"
    using neighbour_ranked [OF assms] set_take_top by blast
  then show ?thesis by (simp add: common_products_eq)
qed

lemma neighbours_beat_rest:
  assumes n: "n \<in> set (neighbours g c)"
    and m: "m \<noteq> c" "1 \<le> overlap g c m" "m \<notin> set (neighbours g c)"
  shows "overlap g c m \<le> overlap g c n"
proof -
  have "(m, overlap g c m) \<in> set (common_products g c)"
    using m by (simp add: common_products_eq)
  moreover have "(m, overlap g c m) \<notin> set (take_top 10 (common_products g c))"
    using m(3) by (force simp: neighbours_def)
  ultimately show ?thesis
    using take_top_beats_rest [OF neighbour_ranked [OF n]] by force
qed

lemma set_neighbour_purchases:
  "set (neighbour_purchases g c) =
     {(rec, other). other \<in> set (neighbours g c) \<and> rec \<in> set (customer_products g other)
        \<and> rec \<notin> set (customer_products g c)}"
  unfolding neighbour_purchases_def by (auto simp: set_customer_products)



lemma neighbour_purchase_positive:
  assumes "(rec, n) \<in> set (neighbour_purchases g c)"
  shows "1 \<le> int (length (buying_neighbours g c rec))"
proof -
  have "n \<in> set (buying_neighbours g c rec)"
    using assms by (simp add: set_neighbour_purchases buying_neighbours_def)
  then show ?thesis by (cases "buying_neighbours g c rec") simp_all
qed

lemma customer_products_are_nodes:
  "p \<in> set (customer_products g c) \<Longrightarrow> p \<in> ids (product_nodes g)"
  by (auto simp: set_customer_products set_purchase_paths)


lemma length_order_desc: "length (order_desc rows) = length rows"
  by (simp add: order_desc_def)

lemma length_take_top_min: "length (take_top n rows) = min n (length rows)"
  by (simp add: take_top_def length_order_desc min.commute)

lemma top_ranked_table:
  assumes d: "distinct (map fst t)"
    and eq: "\<And>k v. (k, v) \<in> set t \<longleftrightarrow> k \<in> S \<and> v = h k"
  shows "top_ranked n S h (take_top n t)"
proof -
  let ?r = "take_top n t"
  have keys: "fst ` set t = S"
  proof (rule set_eqI)
    fix k
    show "k \<in> fst ` set t \<longleftrightarrow> k \<in> S"
    proof
      assume "k \<in> fst ` set t"
      then obtain x where x: "x \<in> set t" and k: "k = fst x" by (rule imageE)
      obtain k' v where kv: "x = (k', v)" by (cases x)
      from x k kv have "(k, v) \<in> set t" by simp
      then show "k \<in> S" by (simp only: eq)
    next
      assume "k \<in> S"
      then have "(k, h k) \<in> set t" by (simp only: eq)
      then have "fst (k, h k) \<in> fst ` set t" by (rule imageI)
      then show "k \<in> fst ` set t" by simp
    qed
  qed
  have "card (set (map fst t)) = length (map fst t)"
    using d by (rule distinct_card)
  then have len: "length t = card S"
    using keys by simp
  have 1: "distinct (map fst ?r)"
    using d by (rule distinct_keys_take_top)
  have mem: "k \<in> S \<and> v = h k" if "(k, v) \<in> set ?r" for k v
  proof -
    from that set_take_top [of n t] have "(k, v) \<in> set t" by (rule subsetD [rotated])
    then show ?thesis by (simp only: eq)
  qed
  have 2: "\<forall>(k, v)\<in>set ?r. k \<in> S \<and> v = h k"
  proof (rule ballI)
    fix x assume x: "x \<in> set ?r"
    obtain k v where kv: "x = (k, v)" by (cases x)
    from x kv have "k \<in> S \<and> v = h k" using mem by simp
    then show "case x of (k, v) \<Rightarrow> k \<in> S \<and> v = h k" by (simp add: kv)
  qed
  have 3: "length ?r = min n (card S)"
    by (simp only: length_take_top_min len)
  have 4: "sorted_wrt (\<lambda>a b. snd b \<le> snd a) ?r"
    by (rule sorted_take_top)
  have 5: "\<forall>k\<in>S. k \<notin> fst ` set ?r \<longrightarrow> (\<forall>(k', v')\<in>set ?r. h k \<le> v')"
  proof (intro ballI impI)
    fix k x assume k: "k \<in> S" and out: "k \<notin> fst ` set ?r" and x: "x \<in> set ?r"
    obtain k' v' where kv: "x = (k', v')" by (cases x)
    from k have b: "(k, h k) \<in> set t" by (simp only: eq)
    have nb: "(k, h k) \<notin> set ?r"
    proof
      assume "(k, h k) \<in> set ?r"
      then have "fst (k, h k) \<in> fst ` set ?r" by (rule imageI)
      with out show False by simp
    qed
    have "snd (k, h k) \<le> snd x" using x b nb by (rule take_top_beats_rest)
    then show "case x of (k', v') \<Rightarrow> h k \<le> v'" by (simp add: kv)
  qed
  from 1 2 3 4 5 show ?thesis unfolding top_ranked_def by (intro conjI)
qed

lemma distinct_total_sold: "distinct (map fst (total_sold g))"
  by (simp add: total_sold_def comp_def)

lemma distinct_co_occurrences: "distinct (map fst (co_occurrences g x))"
  by (simp add: co_occurrences_def comp_def)



lemma sold_products:
  "p \<in> fst ` set (sold g) \<longleftrightarrow>
     p \<in> ids (product_nodes g) \<and> (\<exists>od\<in>ids (order_nodes g). (od, p) \<in> ids (contains g))"
proof
  assume "p \<in> fst ` set (sold g)"
  then obtain x where x: "x \<in> set (sold g)" and p: "p = fst x" by (rule imageE)
  obtain p' q where pq: "x = (p', q)" by (cases x)
  from x p pq have "(p, q) \<in> set (sold g)" by simp
  then obtain od where od: "((od, p), q) \<in> set (contains g)" "od \<in> ids (order_nodes g)"
      "p \<in> ids (product_nodes g)"
    unfolding set_sold by blast
  from od(1) have "(od, p) \<in> ids (contains g)" unfolding in_ids by (rule exI)
  with od(2,3) show "p \<in> ids (product_nodes g)
      \<and> (\<exists>od\<in>ids (order_nodes g). (od, p) \<in> ids (contains g))" by blast
next
  assume a: "p \<in> ids (product_nodes g)
      \<and> (\<exists>od\<in>ids (order_nodes g). (od, p) \<in> ids (contains g))"
  then obtain od where od: "od \<in> ids (order_nodes g)" "(od, p) \<in> ids (contains g)" by blast
  from od(2) obtain q where "((od, p), q) \<in> set (contains g)" unfolding in_ids by (rule exE)
  with od(1) a have "(p, q) \<in> set (sold g)" unfolding set_sold by blast
  then have "fst (p, q) \<in> fst ` set (sold g)" by (rule imageI)
  then show "p \<in> fst ` set (sold g)" by simp
qed

lemma total_sold_table:
  "(p, n) \<in> set (total_sold g) \<longleftrightarrow>
     p \<in> {p. p \<in> ids (product_nodes g) \<and> (\<exists>od\<in>ids (order_nodes g). (od, p) \<in> ids (contains g))}
     \<and> n = quantity_sold g p"
  by (simp only: total_sold_eq sold_products mem_Collect_eq)

lemma co_occurring_products:
  "p \<in> snd ` set (bought_with g x) \<longleftrightarrow>
     p \<noteq> x \<and> x \<in> ids (product_nodes g) \<and> p \<in> ids (product_nodes g) \<and> orders_with_both g x p \<noteq> []"
proof -
  have "orders_with_both g x p \<noteq> [] \<longleftrightarrow> set (orders_with_both g x p) \<noteq> {}"
    by simp
  also have "\<dots> \<longleftrightarrow> (\<exists>od. od \<in> ids (order_nodes g) \<and> (od, x) \<in> ids (contains g)
        \<and> (od, p) \<in> ids (contains g))"
    unfolding set_orders_with_both by blast
  finally have nonempty: "orders_with_both g x p \<noteq> [] \<longleftrightarrow>
      (\<exists>od. od \<in> ids (order_nodes g) \<and> (od, x) \<in> ids (contains g) \<and> (od, p) \<in> ids (contains g))" .
  have "p \<in> snd ` set (bought_with g x) \<longleftrightarrow> (\<exists>od. (od, p) \<in> set (bought_with g x))"
    by force
  also have "\<dots> \<longleftrightarrow> (\<exists>od. (od, x) \<in> ids (contains g) \<and> x \<in> ids (product_nodes g)
      \<and> od \<in> ids (order_nodes g) \<and> (od, p) \<in> ids (contains g) \<and> p \<in> ids (product_nodes g)
      \<and> p \<noteq> x)"
    unfolding set_bought_with by simp
  also have "\<dots> \<longleftrightarrow> p \<noteq> x \<and> x \<in> ids (product_nodes g) \<and> p \<in> ids (product_nodes g)
      \<and> orders_with_both g x p \<noteq> []"
    unfolding nonempty by blast
  finally show ?thesis .
qed

lemma co_occurrences_table:
  "(p, n) \<in> set (co_occurrences g x) \<longleftrightarrow>
     p \<in> {p. p \<noteq> x \<and> x \<in> ids (product_nodes g) \<and> p \<in> ids (product_nodes g)
             \<and> orders_with_both g x p \<noteq> []}
     \<and> n = int (length (orders_with_both g x p))"
  by (simp only: co_occurrences_eq co_occurring_products mem_Collect_eq)




lemma rows_of_ranked:
  "r \<in> set (with_category g ranked) \<longleftrightarrow>
     (product_id r, score r) \<in> set ranked
     \<and> (product_id r, product_name r, price r) \<in> set (product_nodes g)
     \<and> categorised g (product_id r) (category r)"
  unfolding in_with_category categorised_def by auto

lemma top_ranked_distinct_sorted:
  "top_ranked n S h r \<Longrightarrow> distinct (map fst r) \<and> sorted_wrt (\<lambda>a b. snd b \<le> snd a) r"
  by (simp add: top_ranked_def)

lemma ex_ranked:
  assumes "\<exists>r. A r \<and> T r \<and> R r" and "\<And>r. T r \<Longrightarrow> D r"
  shows "\<exists>r. A r \<and> D r"
  using assms by blast


section \<open>The claims about the recommendation queries\<close>




text \<open>
  C7 as the specification states it says that products with equal totals are ordered in
  a determined way, for instance by id. The statement sorts by \<^verbatim>\<open>total_sold DESC\<close> and
  by nothing else. Below, \<^verbatim>\<open>PA\<close> has sold 10 and \<^verbatim>\<open>PB\<close> and \<^verbatim>\<open>PC\<close> 7 each. In
  the first graph \<^verbatim>\<open>PC\<close> comes before \<^verbatim>\<open>PB\<close>; in the second, which has the same nodes
  and relationships with two \<^verbatim>\<open>CONTAINS\<close> relationships stored in the other order,
  \<^verbatim>\<open>PB\<close> comes before \<^verbatim>\<open>PC\<close>.
\<close>

theorem popular_ties_counterexample:
  "popular_products
     \<lparr>category_nodes = [(''C1'', ''Books'')],
     product_nodes = [(''PA'', ''A'', 10), (''PB'', ''B'', 20), (''PC'', ''C'', 30)],
     customer_nodes = [(''U1'', ''Ann'', 1), (''U2'', ''Bob'', 2), (''U3'', ''Cy'', 3)],
     order_nodes = [(''O1'', 1), (''O2'', 2), (''O3'', 3)],
     in_category = [(''PA'', ''C1''), (''PB'', ''C1''), (''PC'', ''C1'')],
     placed = [(''U1'', ''O1''), (''U2'', ''O2''), (''U2'', ''O3'')],
     contains = [((''O1'', ''PA''), 6), ((''O2'', ''PA''), 4), ((''O2'', ''PC''), 7),
         ((''O3'', ''PB''), 7)],
     interactions = []\<rparr>
     5
   = Inr [\<lparr>product_id = ''PA'', product_name = ''A'', price = 10, category = ''Books'', score = 10\<rparr>,
         \<lparr>product_id = ''PC'', product_name = ''C'', price = 30, category = ''Books'', score = 7\<rparr>,
         \<lparr>product_id = ''PB'', product_name = ''B'', price = 20, category = ''Books'', score = 7\<rparr>]
   \<and> popular_products
       \<lparr>category_nodes = [(''C1'', ''Books'')],
       product_nodes = [(''PA'', ''A'', 10), (''PB'', ''B'', 20), (''PC'', ''C'', 30)],
       customer_nodes = [(''U1'', ''Ann'', 1), (''U2'', ''Bob'', 2), (''U3'', ''Cy'', 3)],
       order_nodes = [(''O1'', 1), (''O2'', 2), (''O3'', 3)],
       in_category = [(''PA'', ''C1''), (''PB'', ''C1''), (''PC'', ''C1'')],
       placed = [(''U1'', ''O1''), (''U2'', ''O2''), (''U2'', ''O3'')],
       contains = [((''O1'', ''PA''), 6), ((''O2'', ''PA''), 4), ((''O3'', ''PB''), 7),
           ((''O2'', ''PC''), 7)],
       interactions = []\<rparr>
       5
     = Inr [\<lparr>product_id = ''PA'', product_name = ''A'', price = 10, category = ''Books'', score = 10\<rparr>,
           \<lparr>product_id = ''PB'', product_name = ''B'', price = 20, category = ''Books'', score = 7\<rparr>,
           \<lparr>product_id = ''PC'', product_name = ''C'', price = 30, category = ''Books'', score = 7\<rparr>]"
  by code_simp

text \<open>
  C7, amended. For every limit from 0 up to the largest one the driver sends
  (\<open>limit < 2 ^ 63\<close>), \<open>popular_products\<close> ranks the products that an order contains:
  it takes \<open>limit\<close> of them, or all of them when they are fewer, each once, with the sum
  of the quantities of the \<^verbatim>\<open>CONTAINS\<close> relationships from orders to it, in descending
  order of that sum, and no product left out has a greater sum than one taken. It
  returns the rows of the products taken, in that order: one row for every category of
  the product, so none for a product without a category. The customers, their orders'
  \<^verbatim>\<open>PLACED\<close> relationships and the interactions have no part in the result. Nothing
  is said about the order of products with equal sums.
\<close>

theorem popular_products_ranked:
  assumes "0 \<le> limit" and "limit < 2 ^ 63"
  shows "\<exists>ranked. popular_products g limit = Inr (with_category g ranked)
     \<and> top_ranked (nat limit)
          {p. p \<in> ids (product_nodes g)
              \<and> (\<exists>od\<in>ids (order_nodes g). (od, p) \<in> ids (contains g))}
          (quantity_sold g) ranked
     \<and> (\<forall>r. r \<in> set (with_category g ranked) \<longleftrightarrow>
           (product_id r, score r) \<in> set ranked
           \<and> (product_id r, product_name r, price r) \<in> set (product_nodes g)
           \<and> categorised g (product_id r) (category r))
     \<and> sorted_wrt (\<lambda>a b. score b \<le> score a) (with_category g ranked)
     \<and> popular_products (g\<lparr>customer_nodes := cs, placed := pl, interactions := ia\<rparr>) limit
         = popular_products g limit"
proof -
  let ?ranked = "take_top (nat limit) (total_sold g)"
  have 1: "popular_products g limit = Inr (with_category g ?ranked)"
    using assms(1) by (rule popular_products_rows)
  have 2: "top_ranked (nat limit)
      {p. p \<in> ids (product_nodes g)
          \<and> (\<exists>od\<in>ids (order_nodes g). (od, p) \<in> ids (contains g))}
      (quantity_sold g) ?ranked"
    by (rule top_ranked_table) (rule distinct_total_sold, rule total_sold_table)
  have 3: "\<forall>r. r \<in> set (with_category g ?ranked) \<longleftrightarrow>
           (product_id r, score r) \<in> set ?ranked
           \<and> (product_id r, product_name r, price r) \<in> set (product_nodes g)
           \<and> categorised g (product_id r) (category r)"
    by (intro allI) (rule rows_of_ranked)
  have 4: "sorted_wrt (\<lambda>a b. score b \<le> score a) (with_category g ?ranked)"
    by (rule sorted_with_category) (rule sorted_take_top)
  have 5: "popular_products (g\<lparr>customer_nodes := cs, placed := pl, interactions := ia\<rparr>) limit
      = popular_products g limit"
    by (rule popular_ignores_customers)
  from 1 2 3 4 5 show ?thesis
    by (intro exI [of _ ?ranked] conjI)
qed

theorem popular_products_ranked_witness:
  "\<exists>ranked. popular_products
            \<lparr>category_nodes = [(''C1'', ''Books'')],
             product_nodes = [(''PA'', ''A'', 10), (''PB'', ''B'', 20), (''PC'', ''C'', 30)],
             customer_nodes = [(''U1'', ''Ann'', 1), (''U2'', ''Bob'', 2), (''U3'', ''Cy'', 3)],
             order_nodes = [(''O1'', 1), (''O2'', 2), (''O3'', 3)],
             in_category = [(''PA'', ''C1''), (''PB'', ''C1''), (''PC'', ''C1'')],
             placed = [(''U1'', ''O1''), (''U2'', ''O2''), (''U2'', ''O3'')],
             contains = [((''O1'', ''PA''), 6), ((''O2'', ''PA''), 4), ((''O2'', ''PC''), 7),
                 ((''O3'', ''PB''), 7)],
             interactions = []\<rparr>
            5 = Inr (with_category
                \<lparr>category_nodes = [(''C1'', ''Books'')],
                 product_nodes = [(''PA'', ''A'', 10), (''PB'', ''B'', 20), (''PC'', ''C'', 30)],
                 customer_nodes = [(''U1'', ''Ann'', 1), (''U2'', ''Bob'', 2), (''U3'', ''Cy'', 3)],
                 order_nodes = [(''O1'', 1), (''O2'', 2), (''O3'', 3)],
                 in_category = [(''PA'', ''C1''), (''PB'', ''C1''), (''PC'', ''C1'')],
                 placed = [(''U1'', ''O1''), (''U2'', ''O2''), (''U2'', ''O3'')],
                 contains = [((''O1'', ''PA''), 6), ((''O2'', ''PA''), 4), ((''O2'', ''PC''), 7),
                     ((''O3'', ''PB''), 7)],
                 interactions = []\<rparr>
                ranked)
      \<and> distinct (map fst ranked)
      \<and> sorted_wrt (\<lambda>a b. snd b \<le> snd a) ranked"
proof -
  let ?g = "\<lparr>category_nodes = [(''C1'', ''Books'')],
            product_nodes = [(''PA'', ''A'', 10), (''PB'', ''B'', 20), (''PC'', ''C'', 30)],
            customer_nodes = [(''U1'', ''Ann'', 1), (''U2'', ''Bob'', 2), (''U3'', ''Cy'', 3)],
            order_nodes = [(''O1'', 1), (''O2'', 2), (''O3'', 3)],
            in_category = [(''PA'', ''C1''), (''PB'', ''C1''), (''PC'', ''C1'')],
            placed = [(''U1'', ''O1''), (''U2'', ''O2''), (''U2'', ''O3'')],
            contains = [((''O1'', ''PA''), 6), ((''O2'', ''PA''), 4), ((''O2'', ''PC''), 7),
                ((''O3'', ''PB''), 7)],
            interactions = []\<rparr>"
  have limit: "(0::int) \<le> 5" "(5::int) < 2 ^ 63" by simp_all
  show ?thesis
    by (rule ex_ranked [OF popular_products_ranked [OF limit, of ?g]]) (rule top_ranked_distinct_sorted)
qed

text \<open>
  C8 as the specification states it holds for every limit. The limit is the query
  parameter of the request, an integer that nothing checks, and the store refuses a
  negative \<^verbatim>\<open>LIMIT\<close>: with limit \<open>-1\<close> the call raises and returns no list.
\<close>

theorem negative_limit_counterexample:
  "frequently_bought_together
     \<lparr>category_nodes = [(''C1'', ''Books'')],
     product_nodes = [(''PA'', ''A'', 10), (''PB'', ''B'', 20), (''PC'', ''C'', 30)],
     customer_nodes = [(''U1'', ''Ann'', 1), (''U2'', ''Bob'', 2), (''U3'', ''Cy'', 3)],
     order_nodes = [(''O1'', 1), (''O2'', 2), (''O3'', 3)],
     in_category = [(''PA'', ''C1''), (''PB'', ''C1''), (''PC'', ''C1'')],
     placed = [(''U1'', ''O1''), (''U2'', ''O2''), (''U2'', ''O3'')],
     contains = [((''O1'', ''PA''), 6), ((''O2'', ''PA''), 4), ((''O2'', ''PC''), 7),
         ((''O3'', ''PB''), 7)],
     interactions = []\<rparr>
     ''PA'' (- 1)
   = Inl CypherArgumentError"
  by code_simp

text \<open>
  C8, amended. For every product \<open>x\<close> and every limit from 0 up to the largest one the
  driver sends (\<open>limit < 2 ^ 63\<close>), \<open>frequently_bought_together\<close> ranks the other
  products that an order contains together with \<open>x\<close>: it takes \<open>limit\<close> of them, or all
  of them when they are fewer, each once, with the number of orders that contain both it
  and \<open>x\<close>, in descending order of that number, and no product left out shares more
  orders with \<open>x\<close> than one taken. It returns the rows of the products taken, in that
  order: one row for every category of the product, so none for a product without a
  category. \<open>x\<close> is not among the products of the rows.
\<close>

theorem frequently_bought_together_ranked:
  assumes "0 \<le> limit" and "limit < 2 ^ 63"
  shows "\<exists>ranked. frequently_bought_together g x limit = Inr (with_category g ranked)
     \<and> top_ranked (nat limit)
          {p. p \<noteq> x \<and> x \<in> ids (product_nodes g) \<and> p \<in> ids (product_nodes g)
              \<and> orders_with_both g x p \<noteq> []}
          (\<lambda>p. int (length (orders_with_both g x p))) ranked
     \<and> (\<forall>r. r \<in> set (with_category g ranked) \<longleftrightarrow>
           (product_id r, score r) \<in> set ranked
           \<and> (product_id r, product_name r, price r) \<in> set (product_nodes g)
           \<and> categorised g (product_id r) (category r))
     \<and> sorted_wrt (\<lambda>a b. score b \<le> score a) (with_category g ranked)
     \<and> x \<notin> product_id ` set (with_category g ranked)"
proof -
  let ?ranked = "take_top (nat limit) (co_occurrences g x)"
  have 1: "frequently_bought_together g x limit = Inr (with_category g ?ranked)"
    using assms(1) by (simp add: frequently_bought_together_def)
  have 2: "top_ranked (nat limit)
      {p. p \<noteq> x \<and> x \<in> ids (product_nodes g) \<and> p \<in> ids (product_nodes g)
          \<and> orders_with_both g x p \<noteq> []}
      (\<lambda>p. int (length (orders_with_both g x p))) ?ranked"
    by (rule top_ranked_table) (rule distinct_co_occurrences, rule co_occurrences_table)
  have 3: "\<forall>r. r \<in> set (with_category g ?ranked) \<longleftrightarrow>
           (product_id r, score r) \<in> set ?ranked
           \<and> (product_id r, product_name r, price r) \<in> set (product_nodes g)
           \<and> categorised g (product_id r) (category r)"
    by (intro allI) (rule rows_of_ranked)
  have 4: "sorted_wrt (\<lambda>a b. score b \<le> score a) (with_category g ?ranked)"
    by (rule sorted_with_category) (rule sorted_take_top)
  have 5: "x \<notin> product_id ` set (with_category g ?ranked)"
  proof
    assume "x \<in> product_id ` set (with_category g ?ranked)"
    then obtain r where r: "r \<in> set (with_category g ?ranked)" and x: "x = product_id r"
      by (rule imageE)
    from r have "(product_id r, score r) \<in> set ?ranked"
      by (simp only: rows_of_ranked)
    with set_take_top [of "nat limit" "co_occurrences g x"]
    have "(product_id r, score r) \<in> set (co_occurrences g x)"
      by (rule subsetD)
    then have "product_id r \<noteq> x"
      by (simp add: co_occurrences_table)
    with x show False by simp
  qed
  from 1 2 3 4 5 show ?thesis
    by (intro exI [of _ ?ranked] conjI)
qed

theorem frequently_bought_together_ranked_witness:
  "\<exists>ranked. frequently_bought_together
            \<lparr>category_nodes = [(''C1'', ''Books'')],
             product_nodes = [(''PA'', ''A'', 10), (''PB'', ''B'', 20), (''PC'', ''C'', 30)],
             customer_nodes = [(''U1'', ''Ann'', 1), (''U2'', ''Bob'', 2), (''U3'', ''Cy'', 3)],
             order_nodes = [(''O1'', 1), (''O2'', 2), (''O3'', 3)],
             in_category = [(''PA'', ''C1''), (''PB'', ''C1''), (''PC'', ''C1'')],
             placed = [(''U1'', ''O1''), (''U2'', ''O2''), (''U2'', ''O3'')],
             contains = [((''O1'', ''PA''), 6), ((''O2'', ''PA''), 4), ((''O2'', ''PC''), 7),
                 ((''O3'', ''PB''), 7)],
             interactions = []\<rparr>
            ''PA'' 5 = Inr (with_category
                \<lparr>category_nodes = [(''C1'', ''Books'')],
                 product_nodes = [(''PA'', ''A'', 10), (''PB'', ''B'', 20), (''PC'', ''C'', 30)],
                 customer_nodes = [(''U1'', ''Ann'', 1), (''U2'', ''Bob'', 2), (''U3'', ''Cy'', 3)],
                 order_nodes = [(''O1'', 1), (''O2'', 2), (''O3'', 3)],
                 in_category = [(''PA'', ''C1''), (''PB'', ''C1''), (''PC'', ''C1'')],
                 placed = [(''U1'', ''O1''), (''U2'', ''O2''), (''U2'', ''O3'')],
                 contains = [((''O1'', ''PA''), 6), ((''O2'', ''PA''), 4), ((''O2'', ''PC''), 7),
                     ((''O3'', ''PB''), 7)],
                 interactions = []\<rparr>
                ranked)
      \<and> distinct (map fst ranked)
      \<and> sorted_wrt (\<lambda>a b. snd b \<le> snd a) ranked"
proof -
  let ?g = "\<lparr>category_nodes = [(''C1'', ''Books'')],
            product_nodes = [(''PA'', ''A'', 10), (''PB'', ''B'', 20), (''PC'', ''C'', 30)],
            customer_nodes = [(''U1'', ''Ann'', 1), (''U2'', ''Bob'', 2), (''U3'', ''Cy'', 3)],
            order_nodes = [(''O1'', 1), (''O2'', 2), (''O3'', 3)],
            in_category = [(''PA'', ''C1''), (''PB'', ''C1''), (''PC'', ''C1'')],
            placed = [(''U1'', ''O1''), (''U2'', ''O2''), (''U2'', ''O3'')],
            contains = [((''O1'', ''PA''), 6), ((''O2'', ''PA''), 4), ((''O2'', ''PC''), 7),
                ((''O3'', ''PB''), 7)],
            interactions = []\<rparr>"
  have limit: "(0::int) \<le> 5" "(5::int) < 2 ^ 63" by simp_all
  show ?thesis
    by (rule ex_ranked [OF frequently_bought_together_ranked [OF limit, of ?g "''PA''"]]) (rule top_ranked_distinct_sorted)
qed



text \<open>
  C10. Every row that \<open>list_products\<close> or one of the four strategies returns is the row
  of a product with an \<^verbatim>\<open>IN_CATEGORY\<close> relationship to a category node, whose name
  the row carries; so a product without such a relationship is in no result. The last
  part is a graph in which the best-selling product \<^verbatim>\<open>PA\<close> has no category: asked for
  two products, \<open>popular_products\<close> takes \<^verbatim>\<open>PA\<close> and \<^verbatim>\<open>PC\<close> as the top two and
  returns the one row of \<^verbatim>\<open>PC\<close>.
\<close>

theorem results_require_category:
  "(\<forall>r\<in>set (list_products g). categorised g (product_id r) (category r))
   \<and> (\<forall>rows. collaborative_filtering g c limit = Inr rows \<longrightarrow>
          (\<forall>r\<in>set rows. categorised g (product_id r) (category r)))
   \<and> (\<forall>rows. content_based g c limit = Inr rows \<longrightarrow>
          (\<forall>r\<in>set rows. categorised g (product_id r) (category r)))
   \<and> (\<forall>rows. popular_products g limit = Inr rows \<longrightarrow>
          (\<forall>r\<in>set rows. categorised g (product_id r) (category r)))
   \<and> (\<forall>rows. frequently_bought_together g x limit = Inr rows \<longrightarrow>
          (\<forall>r\<in>set rows. categorised g (product_id r) (category r)))
   \<and> popular_products
       \<lparr>category_nodes = [(''C1'', ''Books'')],
       product_nodes = [(''PA'', ''A'', 10), (''PB'', ''B'', 20), (''PC'', ''C'', 30)],
       customer_nodes = [(''U1'', ''Ann'', 1), (''U2'', ''Bob'', 2), (''U3'', ''Cy'', 3)],
       order_nodes = [(''O1'', 1), (''O2'', 2), (''O3'', 3)],
       in_category = [(''PB'', ''C1''), (''PC'', ''C1'')],
       placed = [(''U1'', ''O1''), (''U2'', ''O2''), (''U2'', ''O3'')],
       contains = [((''O1'', ''PA''), 6), ((''O2'', ''PA''), 4), ((''O2'', ''PC''), 7),
           ((''O3'', ''PB''), 7)],
       interactions = []\<rparr>
       2
     = Inr [\<lparr>product_id = ''PC'', product_name = ''C'', price = 30, category = ''Books'', score = 7\<rparr>]"
proof (intro conjI allI impI ballI)
  fix r assume "r \<in> set (list_products g)"
  then show "categorised g (product_id r) (category r)"
    by (rule list_products_categorised)
next
  fix rows r assume "collaborative_filtering g c limit = Inr rows" and r: "r \<in> set rows"
  then have "rows = [] \<or> rows = with_category g (take_top (nat limit) (neighbour_scores g c))"
    by (auto simp: collaborative_filtering_def split: if_splits)
  with r have "r \<in> set (with_category g (take_top (nat limit) (neighbour_scores g c)))"
    by auto
  then show "categorised g (product_id r) (category r)"
    by (rule with_category_categorised)
next
  fix rows r assume "content_based g c limit = Inr rows" and "r \<in> set rows"
  then show "categorised g (product_id r) (category r)"
    by (rule content_based_categorised)
next
  fix rows r assume "popular_products g limit = Inr rows" and r: "r \<in> set rows"
  then have "rows = with_category g (take_top (nat limit) (total_sold g))"
    by (auto simp: popular_products_def split: if_splits)
  with r show "categorised g (product_id r) (category r)"
    by (simp add: with_category_categorised)
next
  fix rows r assume "frequently_bought_together g x limit = Inr rows" and r: "r \<in> set rows"
  then have "rows = with_category g (take_top (nat limit) (co_occurrences g x))"
    by (auto simp: frequently_bought_together_def split: if_splits)
  with r show "categorised g (product_id r) (category r)"
    by (simp add: with_category_categorised)
next
  show "popular_products
       \<lparr>category_nodes = [(''C1'', ''Books'')],
       product_nodes = [(''PA'', ''A'', 10), (''PB'', ''B'', 20), (''PC'', ''C'', 30)],
       customer_nodes = [(''U1'', ''Ann'', 1), (''U2'', ''Bob'', 2), (''U3'', ''Cy'', 3)],
       order_nodes = [(''O1'', 1), (''O2'', 2), (''O3'', 3)],
       in_category = [(''PB'', ''C1''), (''PC'', ''C1'')],
       placed = [(''U1'', ''O1''), (''U2'', ''O2''), (''U2'', ''O3'')],
       contains = [((''O1'', ''PA''), 6), ((''O2'', ''PA''), 4), ((''O2'', ''PC''), 7),
           ((''O3'', ''PB''), 7)],
       interactions = []\<rparr>
       2
     = Inr [\<lparr>product_id = ''PC'', product_name = ''C'', price = 30, category = ''Books'', score = 7\<rparr>]"
    by code_simp
qed

theorem results_require_category_witness:
  "categorised
     \<lparr>category_nodes = [(''C1'', ''Books'')],
     product_nodes = [(''PA'', ''A'', 10), (''PB'', ''B'', 20), (''PC'', ''C'', 30)],
     customer_nodes = [(''U1'', ''Ann'', 1), (''U2'', ''Bob'', 2), (''U3'', ''Cy'', 3)],
     order_nodes = [(''O1'', 1), (''O2'', 2), (''O3'', 3)],
     in_category = [(''PA'', ''C1''), (''PB'', ''C1''), (''PC'', ''C1'')],
     placed = [(''U1'', ''O1''), (''U2'', ''O2''), (''U2'', ''O3'')],
     contains = [((''O1'', ''PA''), 6), ((''O2'', ''PA''), 4), ((''O2'', ''PC''), 7),
         ((''O3'', ''PB''), 7)],
     interactions = []\<rparr>
     ''PA'' ''Books''
   \<and> categorised
       \<lparr>category_nodes = [(''C1'', ''Books'')],
       product_nodes = [(''PA'', ''A'', 10), (''PB'', ''B'', 20), (''PC'', ''C'', 30)],
       customer_nodes = [(''U1'', ''Ann'', 1), (''U2'', ''Bob'', 2), (''U3'', ''Cy'', 3)],
       order_nodes = [(''O1'', 1), (''O2'', 2), (''O3'', 3)],
       in_category = [(''PA'', ''C1''), (''PB'', ''C1''), (''PC'', ''C1'')],
       placed = [(''U1'', ''O1''), (''U2'', ''O2''), (''U2'', ''O3'')],
       contains = [((''O1'', ''PA''), 6), ((''O2'', ''PA''), 4), ((''O2'', ''PC''), 7),
           ((''O3'', ''PB''), 7)],
       interactions = []\<rparr>
       ''PC'' ''Books''
   \<and> categorised
       \<lparr>category_nodes = [(''C1'', ''Books'')],
       product_nodes = [(''PA'', ''A'', 10), (''PB'', ''B'', 20), (''PC'', ''C'', 30)],
       customer_nodes = [(''U1'', ''Ann'', 1), (''U2'', ''Bob'', 2), (''U3'', ''Cy'', 3)],
       order_nodes = [(''O1'', 1), (''O2'', 2), (''O3'', 3)],
       in_category = [(''PA'', ''C1''), (''PB'', ''C1''), (''PC'', ''C1'')],
       placed = [(''U1'', ''O1''), (''U2'', ''O2''), (''U2'', ''O3'')],
       contains = [((''O1'', ''PA''), 6), ((''O2'', ''PA''), 4), ((''O2'', ''PC''), 7),
           ((''O3'', ''PB''), 7)],
       interactions = []\<rparr>
       ''PB'' ''Books''"
proof -
  let ?g = "\<lparr>category_nodes = [(''C1'', ''Books'')],
           product_nodes = [(''PA'', ''A'', 10), (''PB'', ''B'', 20), (''PC'', ''C'', 30)],
           customer_nodes = [(''U1'', ''Ann'', 1), (''U2'', ''Bob'', 2), (''U3'', ''Cy'', 3)],
           order_nodes = [(''O1'', 1), (''O2'', 2), (''O3'', 3)],
           in_category = [(''PA'', ''C1''), (''PB'', ''C1''), (''PC'', ''C1'')],
           placed = [(''U1'', ''O1''), (''U2'', ''O2''), (''U2'', ''O3'')],
           contains = [((''O1'', ''PA''), 6), ((''O2'', ''PA''), 4), ((''O2'', ''PC''), 7),
               ((''O3'', ''PB''), 7)],
           interactions = []\<rparr>"
  note t = results_require_category [where g = ?g and c = "''U1''" and x = "''PA''" and limit = 5]
  have lp: "\<lparr>product_id = ''PA'', product_name = ''A'', price = 10, category = ''Books''\<rparr>
      \<in> set (list_products ?g)"
    by code_simp
  have cf: "collaborative_filtering ?g ''U1'' 5
      = Inr [\<lparr>product_id = ''PC'', product_name = ''C'', price = 30, category = ''Books'', score = 1\<rparr>,
           \<lparr>product_id = ''PB'', product_name = ''B'', price = 20, category = ''Books'', score = 1\<rparr>]"
    by code_simp
  have cb: "content_based ?g ''U1'' 5
      = Inr [\<lparr>product_id = ''PB'', product_name = ''B'', price = 20, category = ''Books''\<rparr>,
           \<lparr>product_id = ''PC'', product_name = ''C'', price = 30, category = ''Books''\<rparr>]"
    by code_simp
  have pp: "popular_products ?g 5
      = Inr [\<lparr>product_id = ''PA'', product_name = ''A'', price = 10, category = ''Books'', score = 10\<rparr>,
           \<lparr>product_id = ''PC'', product_name = ''C'', price = 30, category = ''Books'', score = 7\<rparr>,
           \<lparr>product_id = ''PB'', product_name = ''B'', price = 20, category = ''Books'', score = 7\<rparr>]"
    by code_simp
  have fb: "frequently_bought_together ?g ''PA'' 5
      = Inr [\<lparr>product_id = ''PC'', product_name = ''C'', price = 30, category = ''Books'', score = 1\<rparr>]"
    by code_simp
  have 1: "categorised ?g ''PA'' ''Books''"
    using t [THEN conjunct1, rule_format, OF lp] by simp
  have 2: "categorised ?g ''PC'' ''Books''"
    using t [THEN conjunct2, THEN conjunct1, rule_format, OF cf, of "\<lparr>product_id = ''PC'', product_name = ''C'', price = 30, category = ''Books'', score = 1\<rparr>"]
    by simp
  have 3: "categorised ?g ''PB'' ''Books''"
    using t [THEN conjunct2, THEN conjunct2, THEN conjunct1, rule_format, OF cb, of "\<lparr>product_id = ''PB'', product_name = ''B'', price = 20, category = ''Books''\<rparr>"]
    by simp
  have 4: "categorised ?g ''PA'' ''Books''"
    using t [THEN conjunct2, THEN conjunct2, THEN conjunct2, THEN conjunct1, rule_format, OF pp,
        of "\<lparr>product_id = ''PA'', product_name = ''A'', price = 10, category = ''Books'', score = 10\<rparr>"]
    by simp
  have 5: "categorised ?g ''PC'' ''Books''"
    using t [THEN conjunct2, THEN conjunct2, THEN conjunct2, THEN conjunct2, THEN conjunct1,
        rule_format, OF fb, of "\<lparr>product_id = ''PC'', product_name = ''C'', price = 30, category = ''Books'', score = 1\<rparr>"]
    by simp
  show ?thesis using 1 2 3 4 5 by (intro conjI)
qed

end
